theory Spec2Isabelle
  imports Main
begin

section \<open>JavaScript values used by the model viewer\<close>

text \<open>
  A JavaScript string is modelled as a \<^typ>\<open>string\<close>, one \<^typ>\<open>char\<close> per code
  unit, so that \<open>length\<close> is the \<open>.length\<close> of the source. A property that
  may be \<open>undefined\<close> is an \<open>option\<close>. The source tests strings with \<open>||\<close>:
  \<open>undefined\<close> and the empty string are both falsy.
\<close>

definition truthy :: "string option \<Rightarrow> bool" where
  "truthy v = (case v of None \<Rightarrow> False | Some s \<Rightarrow> s \<noteq> [])"

text \<open>\<open>a || b\<close> on possibly undefined strings, the right operand being a string.\<close>

definition orElse :: "string option \<Rightarrow> string \<Rightarrow> string" where
  "orElse v d = (case v of None \<Rightarrow> d | Some s \<Rightarrow> if s = [] then d else s)"

text \<open>\<open>a || b\<close> where the right operand may itself be undefined or empty.\<close>

definition orOpt :: "string option \<Rightarrow> string option \<Rightarrow> string option" where
  "orOpt v w = (if truthy v then v else w)"

text \<open>The decimal rendering of a non-negative integer in a template literal.\<close>

definition digitChar :: "nat \<Rightarrow> char" where
  "digitChar d = char_of (48 + d)"

fun numToString :: "nat \<Rightarrow> string" where
  "numToString n =
     (if n < 10 then [digitChar n]
      else numToString (n div 10) @ [digitChar (n mod 10)])"

declare numToString.simps [simp del]

section \<open>ModelViewer.jsx: building the React Flow nodes and edges\<close>

subsection \<open>The decoded operator records\<close>

record attributeProto =
  attr_name :: "string option"
  ints :: "int list option"

text \<open>
  One entry of \<open>graph.nodes\<close>. \<open>input\<close> and \<open>output_prop\<close> (the property \<open>output\<close>) are \<open>None\<close> when the
  property is not an array; \<open>type_prop\<close> is the property \<open>type\<close>.
\<close>

record rawNode =
  opType :: "string option"
  op_type :: "string option"
  type_prop :: "string option"
  name :: "string option"
  input :: "string list option"
  output_prop :: "string list option"
  attribute :: "attributeProto list option"

record flowNode =
  node_id :: string
  node_type :: string
  position_x :: nat
  position_y :: nat
  data_label :: string

record flowEdge =
  edge_id :: string
  source :: string
  target :: string
  animated :: bool

subsection \<open>The builder state of the \<open>useMemo\<close> callback\<close>

text \<open>
  The callback's local variables: the two output arrays, the \<open>Map\<close> from tensor name
  to id, the \<open>Set\<close> of processed inputs (kept in insertion order, its \<open>size\<close> is
  the length) and the counter \<open>uid\<close>.
\<close>

record builder =
  nodes :: "flowNode list"
  edges :: "flowEdge list"
  nameToId :: "string \<rightharpoonup> string"
  processedInputs :: "string list"
  uid :: nat

definition emptyBuilder :: builder where
  "emptyBuilder =
     \<lparr>nodes = [], edges = [], nameToId = Map.empty, processedInputs = [], uid = 1\<rparr>"

text \<open>\<open>getId\<close>: look the name up, allocating \<open>id-<uid>\<close> and advancing \<open>uid\<close> when it is new.\<close>

definition getId :: "string \<Rightarrow> builder \<Rightarrow> string \<times> builder" where
  "getId nm b =
     (case nameToId b nm of
        Some i \<Rightarrow> (i, b)
      | None \<Rightarrow>
          (''id-'' @ numToString (uid b),
           b\<lparr>nameToId := (nameToId b)(nm \<mapsto> ''id-'' @ numToString (uid b)),
             uid := uid b + 1\<rparr>))"

subsection \<open>Pass 1: input nodes\<close>

definition truncLabel :: "string \<Rightarrow> string" where
  "truncLabel t = (if length t > 20 then take 20 t @ ''...'' else t)"

definition inputStep :: "string \<Rightarrow> builder \<Rightarrow> builder" where
  "inputStep inp b =
     (if inp \<in> set (processedInputs b) then b
      else
        (case getId inp b of (inputId, b1) \<Rightarrow>
           b1\<lparr>nodes := nodes b1 @
                 [\<lparr>node_id = inputId, node_type = ''input'',
                   position_x = 50,
                   position_y = 50 + length (processedInputs b1) * 100,
                   data_label = truncLabel inp\<rparr>],
              processedInputs := processedInputs b1 @ [inp]\<rparr>))"

definition inputsOf :: "rawNode \<Rightarrow> string list" where
  "inputsOf n = (case input n of None \<Rightarrow> [] | Some xs \<Rightarrow> xs)"

definition createInputNodes :: "rawNode list \<Rightarrow> builder \<Rightarrow> builder" where
  "createInputNodes ns b =
     fold (\<lambda>n b. case input n of None \<Rightarrow> b | Some xs \<Rightarrow> fold inputStep xs b) ns b"

subsection \<open>Pass 2: operator nodes and edges\<close>

text \<open>\<open>node.output?.[0]\<close>\<close>

definition outputFirst :: "rawNode \<Rightarrow> string option" where
  "outputFirst n =
     (case output_prop n of None \<Rightarrow> None | Some [] \<Rightarrow> None | Some (x # _) \<Rightarrow> Some x)"

text \<open>\<open>node.output?.[0] || node.name || `node-${index}`\<close>\<close>

definition outputName :: "rawNode \<Rightarrow> nat \<Rightarrow> string" where
  "outputName n index =
     orElse (orOpt (outputFirst n) (name n)) (''node-'' @ numToString index)"

text \<open>\<open>node.opType || node.op_type || node.type || `Node ${index}`\<close>\<close>

definition operatorLabel :: "rawNode \<Rightarrow> nat \<Rightarrow> string" where
  "operatorLabel n index =
     orElse (orOpt (orOpt (opType n) (op_type n)) (type_prop n))
       (''Node '' @ numToString index)"

definition edgeStep :: "string \<Rightarrow> string \<Rightarrow> builder \<Rightarrow> builder" where
  "edgeStep nodeId inp b =
     (case getId inp b of (inputId, b1) \<Rightarrow>
        b1\<lparr>edges := edges b1 @
              [\<lparr>edge_id = ''e-'' @ inputId @ ''-'' @ nodeId,
                source = inputId, target = nodeId, animated = True\<rparr>]\<rparr>)"

definition operatorStep :: "nat \<times> rawNode \<Rightarrow> builder \<Rightarrow> builder" where
  "operatorStep p b =
     (case p of (index, n) \<Rightarrow>
       (case getId (outputName n index) b of (nodeId, b1) \<Rightarrow>
          (let b2 = b1\<lparr>nodes := nodes b1 @
                      [\<lparr>node_id = nodeId, node_type = ''default'',
                        position_x = 300 + (index mod 4) * 200,
                        position_y = 100 + (index div 4) * 150,
                        data_label = operatorLabel n index\<rparr>]\<rparr>
           in case input n of
                None \<Rightarrow> b2
              | Some xs \<Rightarrow> fold (edgeStep nodeId) xs b2)))"

definition createOperatorNodes :: "rawNode list \<Rightarrow> builder \<Rightarrow> builder" where
  "createOperatorNodes ns b = fold operatorStep (enumerate 0 ns) b"

subsection \<open>The callback\<close>

definition sampleNodes :: "flowNode list" where
  "sampleNodes =
     [\<lparr>node_id = ''1'', node_type = ''input'', position_x = 100, position_y = 100,
       data_label = ''Input''\<rparr>,
      \<lparr>node_id = ''2'', node_type = ''default'', position_x = 300, position_y = 100,
       data_label = ''Process''\<rparr>,
      \<lparr>node_id = ''3'', node_type = ''output'', position_x = 500, position_y = 100,
       data_label = ''Output''\<rparr>]"

definition sampleEdges :: "flowEdge list" where
  "sampleEdges =
     [\<lparr>edge_id = ''e1-2'', source = ''1'', target = ''2'', animated = True\<rparr>,
      \<lparr>edge_id = ''e2-3'', source = ''2'', target = ''3'', animated = True\<rparr>]"

text \<open>The state after both passes over \<open>modelData.graph.nodes\<close>.\<close>

definition buildState :: "rawNode list \<Rightarrow> builder" where
  "buildState ns = createOperatorNodes ns (createInputNodes ns emptyBuilder)"

text \<open>
  The value of the \<open>useMemo\<close> callback; the argument is \<open>None\<close> when
  \<open>modelData?.graph?.nodes\<close> is missing or is not an array.
\<close>

definition buildGraph :: "rawNode list option \<Rightarrow> flowNode list \<times> flowEdge list" where
  "buildGraph g =
     (case g of
        None \<Rightarrow> (sampleNodes, sampleEdges)
      | Some ns \<Rightarrow> (nodes (buildState ns), edges (buildState ns)))"

section \<open>RawCanvas.jsx: labels and the graph handed to the layout library\<close>

text \<open>
  The source uses two characters outside ASCII, the multiplication sign U+00D7 and the
  en dash U+2013. Each is one code unit in the source and is one \<^typ>\<open>char\<close>
  here: the bytes 0xD7 and 0x96.
\<close>

definition timesSign :: string where
  "timesSign = [char_of (215 :: nat)]"

definition enDash :: string where
  "enDash = [char_of (150 :: nat)]"

text \<open>\<open>String(i)\<close> for an integer.\<close>

definition intToString :: "int \<Rightarrow> string" where
  "intToString i = (if i < 0 then ''-'' @ numToString (nat (- i)) else numToString (nat i))"

text \<open>\<open>Array.prototype.join\<close> on rendered elements.\<close>

fun join :: "string \<Rightarrow> string list \<Rightarrow> string" where
  "join sep [] = []"
| "join sep [x] = x"
| "join sep (x # y # ys) = x @ sep @ join sep (y # ys)"

text \<open>\<open>String.prototype.includes\<close>\<close>

fun includes_str :: "string \<Rightarrow> string \<Rightarrow> bool" where
  "includes_str [] sub = (sub = [])"
| "includes_str (c # cs) sub = (take (length sub) (c # cs) = sub \<or> includes_str cs sub)"

text \<open>\<open>attr?.ints?.join('\<times>') || '\<emdash>'\<close> for the first attribute of that name.\<close>

definition getAttrValue :: "attributeProto list \<Rightarrow> string \<Rightarrow> string" where
  "getAttrValue attrs nm =
     (case find (\<lambda>a. attr_name a = Some nm) attrs of
        None \<Rightarrow> enDash
      | Some a \<Rightarrow>
          (case ints a of
             None \<Rightarrow> enDash
           | Some is \<Rightarrow>
               (let s = join timesSign (map intToString is)
                in if s = [] then enDash else s)))"

text \<open>\<open>node.input?.find((i) => i.includes(key)) || dflt\<close>\<close>

definition findInput :: "rawNode \<Rightarrow> string \<Rightarrow> string \<Rightarrow> string" where
  "findInput n key dflt =
     orElse (case input n of None \<Rightarrow> None | Some xs \<Rightarrow> find (\<lambda>i. includes_str i key) xs) dflt"

definition getConvDetails :: "rawNode \<Rightarrow> string list" where
  "getConvDetails n =
     (let attrs = (case attribute n of None \<Rightarrow> [] | Some as \<Rightarrow> as);
          W = findInput n ''weight'' ''W'';
          B = findInput n ''bias'' ''B''
      in [''Weight: '' @ W,
          ''Bias: '' @ B,
          ''Dilations: '' @ getAttrValue attrs ''dilations'',
          ''Kernel: '' @ getAttrValue attrs ''kernel_shape'',
          ''Padding: '' @ getAttrValue attrs ''pads'',
          ''Strides: '' @ getAttrValue attrs ''strides''])"

definition NODE_WIDTH :: nat where "NODE_WIDTH = 200"
definition NODE_HEIGHT :: nat where "NODE_HEIGHT = 120"
definition INPUT_NODE_WIDTH :: nat where "INPUT_NODE_WIDTH = 140"
definition INPUT_NODE_HEIGHT :: nat where "INPUT_NODE_HEIGHT = 80"
definition OUTPUT_NODE_WIDTH :: nat where "OUTPUT_NODE_WIDTH = 140"
definition OUTPUT_NODE_HEIGHT :: nat where "OUTPUT_NODE_HEIGHT = 80"

text \<open>
  A child and an edge of the graph given to \<open>elk.layout\<close>. A label text, an id and
  a node type may be \<open>undefined\<close>, as \<open>node.opType\<close> and \<open>node.output[0]\<close> may be.
\<close>

record elkNode =
  elk_id :: "string option"
  width :: nat
  height :: nat
  labels :: "string option list"
  nodeType :: "string option"
  originalNode :: "rawNode option"

record elkEdge =
  elk_edge_id :: string
  sources :: "string option list"
  targets :: "string option list"

text \<open>An entry of \<open>graph.inputs\<close> and \<open>graph.outputs\<close>.\<close>

record ioSummary =
  io_name :: "string option"
  io_type :: string

text \<open>The argument \<open>data.graph\<close> of \<open>layoutGraph\<close>.\<close>

record graphData =
  graph_inputs :: "ioSummary list"
  graph_outputs :: "ioSummary list"
  graph_nodes :: "rawNode list"

text \<open>A thrown value, by its \<open>message\<close>.\<close>

datatype jsError = Error (message: string)

text \<open>How a template literal renders a value that may be undefined.\<close>

definition render :: "string option \<Rightarrow> string" where
  "render v = (case v of None \<Rightarrow> ''undefined'' | Some s \<Rightarrow> s)"

definition operatorLines :: "rawNode \<Rightarrow> string option list" where
  "operatorLines n =
     (if opType n = Some ''Conv'' then opType n # map Some (getConvDetails n)
      else [opType n])"

definition operatorChild :: "rawNode \<Rightarrow> elkNode" where
  "operatorChild n =
     \<lparr>elk_id = outputFirst n, width = NODE_WIDTH, height = NODE_HEIGHT,
      labels = operatorLines n, nodeType = opType n, originalNode = Some n\<rparr>"

definition inputChild :: "ioSummary \<Rightarrow> elkNode" where
  "inputChild i =
     \<lparr>elk_id = io_name i, width = INPUT_NODE_WIDTH, height = INPUT_NODE_HEIGHT,
      labels = [io_name i], nodeType = Some ''Input'', originalNode = None\<rparr>"

definition outputChild :: "ioSummary \<Rightarrow> elkNode" where
  "outputChild out =
     \<lparr>elk_id = io_name out, width = OUTPUT_NODE_WIDTH, height = OUTPUT_NODE_HEIGHT,
      labels = [io_name out], nodeType = Some ''Output'', originalNode = None\<rparr>"

definition consumerEdges :: "rawNode \<Rightarrow> elkEdge list" where
  "consumerEdges n =
     map (\<lambda>inp. \<lparr>elk_edge_id = inp @ ''->'' @ render (outputFirst n),
                  sources = [Some inp], targets = [outputFirst n]\<rparr>)
       (inputsOf n)"

text \<open>
  \<open>data.graph.nodes.find(n => n.output.includes(output.name))\<close>, then the edge from
  that node to the declared output.
\<close>

definition producerEdges :: "rawNode list \<Rightarrow> ioSummary \<Rightarrow> elkEdge list" where
  "producerEdges ns out =
     (case find (\<lambda>n. \<exists>t \<in> set (case output_prop n of None \<Rightarrow> [] | Some ys \<Rightarrow> ys).
                        Some t = io_name out) ns of
        None \<Rightarrow> []
      | Some lastNode \<Rightarrow>
          [\<lparr>elk_edge_id = render (outputFirst lastNode) @ ''->'' @ render (io_name out),
            sources = [outputFirst lastNode], targets = [io_name out]\<rparr>])"

text \<open>
  The children and edges \<open>layoutGraph\<close> passes to \<open>elk.layout\<close>. Reading
  \<open>node.output[0]\<close> while building the operator children, and then calling
  \<open>node.input.forEach\<close> while building the edges, throws a \<open>TypeError\<close> on a node
  without that array (the messages are those of V8).
\<close>

definition outputTypeError :: jsError where
  "outputTypeError = Error ''Cannot read properties of undefined (reading '0')''"

definition inputTypeError :: jsError where
  "inputTypeError = Error ''Cannot read properties of undefined (reading 'forEach')''"

definition layoutGraph :: "graphData \<Rightarrow> jsError + elkNode list \<times> elkEdge list" where
  "layoutGraph d =
     (if \<exists>n \<in> set (graph_nodes d). output_prop n = None then Inl outputTypeError
      else if \<exists>n \<in> set (graph_nodes d). input n = None then Inl inputTypeError
      else
        (let allNodes = map operatorChild (graph_nodes d);
             inputs = map inputChild (graph_inputs d);
             outputs = map outputChild (graph_outputs d);
             allChildren = inputs @ allNodes @ outputs;
             edges1 = concat (map consumerEdges (graph_nodes d));
             edges2 = concat (map (producerEdges (graph_nodes d)) (graph_outputs d))
         in Inr (allChildren, edges1 @ edges2)))"

section \<open>ONNXParser: \<open>parseONNXModelComplete\<close>\<close>

datatype tensorProto = Tensor (tensor_name: string)

text \<open>An entry of \<open>graph.input\<close> and \<open>graph.output\<close>; \<open>vi_type_value\<close> is \<open>type?.value\<close>.\<close>

record valueInfoProto =
  vi_name :: "string option"
  vi_type_value :: "string option"

record graphProto =
  node :: "rawNode list option"
  graph_input :: "valueInfoProto list option"
  graph_output :: "valueInfoProto list option"
  initializer :: "tensorProto list option"

text \<open>The decoded model object; \<open>graph\<close> is \<open>None\<close> when the message has no graph.\<close>

record modelProto =
  producerName :: "string option"
  producerVersion :: "string option"
  graph :: "graphProto option"

record fileInfo =
  file_name :: string
  file_size :: nat

record fileSummary =
  fs_name :: string
  fs_size :: nat
  sizeFormatted :: string

record modelSummary =
  ms_producerName :: string
  ms_producerVersion :: string

record graphSummary =
  inputs :: "ioSummary list"
  outputs :: "ioSummary list"
  summary_nodes :: "rawNode list"
  initializers :: "tensorProto list"

text \<open>
  The object \<open>operatorFrequency\<close> starts as the literal \<open>{}\<close>: it owns no property,
  and a key it does not own is looked up in \<open>Object.prototype\<close>. A value it stores is a
  number or, once \<open>+\<close> has met a value that is not a number, a string.
\<close>

datatype jsValue = Num nat | Str string

text \<open>The property names of \<open>Object.prototype\<close> (ECMAScript with its Annex B).\<close>

definition objectPrototypeNames :: "string list" where
  "objectPrototypeNames =
     [''constructor'', ''__defineGetter__'', ''__defineSetter__'', ''hasOwnProperty'',
      ''__lookupGetter__'', ''__lookupSetter__'', ''isPrototypeOf'',
      ''propertyIsEnumerable'', ''toString'', ''valueOf'', ''__proto__'',
      ''toLocaleString'']"

text \<open>
  How \<open>+\<close> renders the inherited value of such a name: the prototype object for
  \<open>__proto__\<close>, a native function for the others (the text is that of V8).
\<close>

definition inheritedText :: "string \<Rightarrow> string" where
  "inheritedText nm =
     (if nm = ''__proto__'' then ''[object Object]''
      else if nm = ''constructor'' then ''function Object() { [native code] }''
      else ''function '' @ nm @ ''() { [native code] }'')"

text \<open>\<open>(v || 0) + 1\<close> on a value the object owns.\<close>

definition plusOne :: "jsValue \<Rightarrow> jsValue" where
  "plusOne v =
     (case v of
        Num c \<Rightarrow> Num (c + 1)
      | Str s \<Rightarrow> if s = [] then Num 1 else Str (s @ ''1''))"

record analysis =
  totalInputs :: nat
  totalOutputs :: nat
  totalNodes :: nat
  totalInitializers :: nat
  modelComplexity :: string
  operatorFrequency :: "string \<rightharpoonup> jsValue"

text \<open>
  The object the function resolves to: a key that the object does not have is \<open>None\<close>.
\<close>

record parseResult =
  result_file :: "fileSummary option"
  result_model :: "modelSummary option"
  result_graph :: "graphSummary option"
  result_analysis :: "analysis option"
  result_error :: "string option"
  parsingMethod :: string

text \<open>
  \<open>(file.size / 1024).toFixed(2)\<close>: the division by 1024 is exact on a size below
  \<open>2^53\<close>, and \<open>toFixed(2)\<close> takes the nearest multiple of 0.01, the larger one on a tie.
\<close>

definition toFixed2_div1024 :: "nat \<Rightarrow> string" where
  "toFixed2_div1024 sz =
     (let n = (200 * sz + 1024) div 2048
      in numToString (n div 100) @ ''.'' @ [digitChar (n mod 100 div 10), digitChar (n mod 10)])"

text \<open>
  \<open>if (op) operatorFrequency[op] = (operatorFrequency[op] || 0) + 1\<close>. An own value is
  read and replaced. A name inherited from \<open>Object.prototype\<close> reads a truthy function
  or object, so the sum is a string; the assignment stores it as an own property, except
  for \<open>__proto__\<close>, whose setter ignores a string. Any other new key reads
  \<open>undefined\<close> and stores 1.
\<close>

definition countOp :: "rawNode \<Rightarrow> (string \<rightharpoonup> jsValue) \<Rightarrow> (string \<rightharpoonup> jsValue)" where
  "countOp n freq =
     (case opType n of
        None \<Rightarrow> freq
      | Some op \<Rightarrow>
          if op = [] then freq
          else
            (case freq op of
               Some v \<Rightarrow> freq(op \<mapsto> plusOne v)
             | None \<Rightarrow>
                 if op \<in> set objectPrototypeNames
                 then (if op = ''__proto__'' then freq
                       else freq(op \<mapsto> Str (inheritedText op @ ''1'')))
                 else freq(op \<mapsto> Num 1)))"

definition complexityOf :: "nat \<Rightarrow> string" where
  "complexityOf len = (if len > 1000 then ''High'' else if len > 100 then ''Medium'' else ''Low'')"

definition summarize :: "valueInfoProto \<Rightarrow> ioSummary" where
  "summarize i = \<lparr>io_name = vi_name i, io_type = orElse (vi_type_value i) ''unknown''\<rparr>"

text \<open>\<open>xs?.length || 0\<close> and \<open>xs || []\<close>\<close>

definition lengthOr0 :: "'a list option \<Rightarrow> nat" where
  "lengthOr0 xs = (case xs of None \<Rightarrow> 0 | Some ys \<Rightarrow> length ys)"

definition orEmpty :: "'a list option \<Rightarrow> 'a list" where
  "orEmpty xs = (case xs of None \<Rightarrow> [] | Some ys \<Rightarrow> ys)"

text \<open>
  The \<open>TypeError\<close> of reading \<open>model.graph.input\<close> when \<open>model.graph\<close> is null
  (the message is that of V8).
\<close>

definition nullGraphError :: jsError where
  "nullGraphError = Error ''Cannot read properties of null (reading 'input')''"

text \<open>
  The body of the \<open>try\<close> block. Its second argument is the outcome of loading the
  schema and decoding the file (lines 507 to 519): the thrown error, or the decoded
  model object.
\<close>

definition tryBlock :: "fileInfo \<Rightarrow> jsError + modelProto \<Rightarrow> jsError + parseResult" where
  "tryBlock f decoded =
     (case decoded of
        Inl err \<Rightarrow> Inl err
      | Inr m \<Rightarrow>
          (let ns = (case graph m of None \<Rightarrow> [] | Some g \<Rightarrow> orEmpty (node g));
               freq = fold countOp ns Map.empty
           in case graph m of
                None \<Rightarrow> Inl nullGraphError
              | Some g \<Rightarrow>
                  Inr \<lparr>result_file = Some \<lparr>fs_name = file_name f, fs_size = file_size f,
                         sizeFormatted = toFixed2_div1024 (file_size f) @ '' KB''\<rparr>,
                       result_model = Some \<lparr>ms_producerName = orElse (producerName m) ''Unknown'',
                         ms_producerVersion = orElse (producerVersion m) ''Unknown''\<rparr>,
                       result_graph = Some \<lparr>inputs = map summarize (orEmpty (graph_input g)),
                         outputs = map summarize (orEmpty (graph_output g)),
                         summary_nodes = ns,
                         initializers = orEmpty (initializer g)\<rparr>,
                       result_analysis = Some \<lparr>totalInputs = lengthOr0 (graph_input g),
                         totalOutputs = lengthOr0 (graph_output g),
                         totalNodes = length ns,
                         totalInitializers = lengthOr0 (initializer g),
                         modelComplexity = complexityOf (length ns),
                         operatorFrequency = freq\<rparr>,
                       result_error = None,
                       parsingMethod = ''runtime-load''\<rparr>))"

definition parseONNXModelComplete :: "fileInfo \<Rightarrow> jsError + modelProto \<Rightarrow> parseResult" where
  "parseONNXModelComplete f decoded =
     (case tryBlock f decoded of
        Inr r \<Rightarrow> r
      | Inl err \<Rightarrow>
          \<lparr>result_file = None, result_model = None, result_graph = None,
           result_analysis = None, result_error = Some (message err),
           parsingMethod = ''fallback''\<rparr>)"

section \<open>Notions used to state the properties of the build\<close>

text \<open>A sequence of \<open>getId\<close> requests, in order, returning the ids handed out.\<close>

fun getIds :: "string list \<Rightarrow> builder \<Rightarrow> string list \<times> builder" where
  "getIds [] b = ([], b)"
| "getIds (nm # nms) b =
     (case getId nm b of (i, b1) \<Rightarrow>
        (case getIds nms b1 of (is, b2) \<Rightarrow> (i # is, b2)))"

text \<open>
  Every id in the \<open>Map\<close> is \<open>id-k\<close> for a counter value \<open>k\<close> already used, and no
  two names share an id.
\<close>

definition idsInv :: "builder \<Rightarrow> bool" where
  "idsInv b =
     (1 \<le> uid b \<and>
      (\<forall>nm i. nameToId b nm = Some i \<longrightarrow>
         (\<exists>k. 1 \<le> k \<and> k < uid b \<and> i = ''id-'' @ numToString k)) \<and>
      inj_on (nameToId b) (dom (nameToId b)))"

text \<open>The names of \<open>xs\<close> not yet in \<open>seen\<close>, appended in the order of their first occurrence.\<close>

fun addNew :: "string list \<Rightarrow> string list \<Rightarrow> string list" where
  "addNew seen [] = seen"
| "addNew seen (x # xs) = addNew (if x \<in> set seen then seen else seen @ [x]) xs"

text \<open>All consumed tensor names, in node order then input-list order.\<close>

definition allInputs :: "rawNode list \<Rightarrow> string list" where
  "allInputs ns = concat (map inputsOf ns)"

definition mkInputNode :: "string \<Rightarrow> nat \<Rightarrow> string \<Rightarrow> flowNode" where
  "mkInputNode i k t =
     \<lparr>node_id = i, node_type = ''input'', position_x = 50, position_y = 50 + k * 100,
      data_label = truncLabel t\<rparr>"

definition mkOperatorNode :: "string \<Rightarrow> nat \<Rightarrow> rawNode \<Rightarrow> flowNode" where
  "mkOperatorNode i index n =
     \<lparr>node_id = i, node_type = ''default'', position_x = 300 + (index mod 4) * 200,
      position_y = 100 + (index div 4) * 150, data_label = operatorLabel n index\<rparr>"

definition mkEdge :: "string \<Rightarrow> string \<Rightarrow> flowEdge" where
  "mkEdge s t = \<lparr>edge_id = ''e-'' @ s @ ''-'' @ t, source = s, target = t, animated = True\<rparr>"

text \<open>The id a builder state holds for a tensor name.\<close>

definition idOf :: "builder \<Rightarrow> string \<Rightarrow> string" where
  "idOf b t = the (nameToId b t)"

definition pass1Inv :: "builder \<Rightarrow> bool" where
  "pass1Inv b =
     (idsInv b \<and> edges b = [] \<and> dom (nameToId b) = set (processedInputs b) \<and>
      nodes b = map (\<lambda>(k, t). mkInputNode (idOf b t) k t) (enumerate 0 (processedInputs b)))"

definition inputNodesOf :: "builder \<Rightarrow> rawNode list \<Rightarrow> flowNode list" where
  "inputNodesOf b ns =
     map (\<lambda>(k, t). mkInputNode (idOf b t) k t) (enumerate 0 (addNew [] (allInputs ns)))"

definition opNodesOf :: "builder \<Rightarrow> nat \<Rightarrow> rawNode list \<Rightarrow> flowNode list" where
  "opNodesOf b s ns =
     map (\<lambda>(i, n). mkOperatorNode (idOf b (outputName n i)) i n) (enumerate s ns)"

definition edgesOf :: "builder \<Rightarrow> nat \<Rightarrow> rawNode list \<Rightarrow> flowEdge list" where
  "edgesOf b s ns =
     concat (map (\<lambda>(i, n). map (\<lambda>t. mkEdge (idOf b t) (idOf b (outputName n i))) (inputsOf n))
       (enumerate s ns))"

text \<open>The canonical names of the operators, numbered from \<open>s\<close>.\<close>

definition outputNames :: "nat \<Rightarrow> rawNode list \<Rightarrow> string list" where
  "outputNames s ns = map (\<lambda>(i, n). outputName n i) (enumerate s ns)"

text \<open>
  The order in which names are first requested from \<open>getId\<close>, and the id that order
  gives to a name: the \<open>k\<close>-th new name gets \<open>id-k\<close>.
\<close>

fun indexOf :: "string list \<Rightarrow> string \<Rightarrow> nat" where
  "indexOf [] x = 0"
| "indexOf (y # ys) x = (if x = y then 0 else Suc (indexOf ys x))"

definition idMap :: "string list \<Rightarrow> string \<rightharpoonup> string" where
  "idMap L t = (if t \<in> set L then Some (''id-'' @ numToString (Suc (indexOf L t))) else None)"

definition allocInv :: "string list \<Rightarrow> builder \<Rightarrow> bool" where
  "allocInv L b = (uid b = Suc (length L) \<and> nameToId b = idMap L)"

definition requests :: "nat \<Rightarrow> rawNode list \<Rightarrow> string list" where
  "requests s ns = concat (map (\<lambda>(i, n). outputName n i # inputsOf n) (enumerate s ns))"

definition requestOrder :: "rawNode list \<Rightarrow> string list" where
  "requestOrder ns = addNew [] (allInputs ns @ outputNames 0 ns)"

definition tensorId :: "rawNode list \<Rightarrow> string \<Rightarrow> string" where
  "tensorId ns t = ''id-'' @ numToString (Suc (indexOf (requestOrder ns) t))"

text \<open>The nodes and edges of the build, written as a function of the model alone.\<close>

definition specNodes :: "rawNode list \<Rightarrow> flowNode list" where
  "specNodes ns =
     map (\<lambda>(k, t). mkInputNode (tensorId ns t) k t) (enumerate 0 (addNew [] (allInputs ns))) @
     map (\<lambda>(i, n). mkOperatorNode (tensorId ns (outputName n i)) i n) (enumerate 0 ns)"

definition specEdges :: "rawNode list \<Rightarrow> flowEdge list" where
  "specEdges ns =
     concat (map (\<lambda>(i, n). map (\<lambda>t. mkEdge (tensorId ns t) (tensorId ns (outputName n i)))
                   (inputsOf n)) (enumerate 0 ns))"

section \<open>Example models\<close>

text \<open>The operator of scenario 1, and an operator consuming its output.\<close>

definition convNode :: rawNode where
  "convNode = \<lparr>opType = Some ''Conv'', op_type = None, type_prop = None, name = None,
     input = Some [''x'', ''w'', ''b''], output_prop = Some [''y''], attribute = None\<rparr>"

definition reluNode :: rawNode where
  "reluNode = \<lparr>opType = Some ''Relu'', op_type = None, type_prop = None, name = None,
     input = Some [''y''], output_prop = Some [''z''], attribute = None\<rparr>"

text \<open>An operator with two outputs, and an operator consuming the second of them.\<close>

definition splitNode :: rawNode where
  "splitNode = \<lparr>opType = Some ''Split'', op_type = None, type_prop = None, name = None,
     input = Some [''s''], output_prop = Some [''u'', ''t''], attribute = None\<rparr>"

definition useNode :: rawNode where
  "useNode = \<lparr>opType = Some ''Relu'', op_type = None, type_prop = None, name = None,
     input = Some [''t''], output_prop = Some [''a''], attribute = None\<rparr>"

section \<open>Notions used to state the properties of the parser\<close>

text \<open>How many operators carry a given \<open>opType\<close>, and the truthy \<open>opType\<close> values in node order.\<close>

definition occurrences :: "string \<Rightarrow> rawNode list \<Rightarrow> nat" where
  "occurrences op ns = length (filter (\<lambda>n. opType n = Some op) ns)"

text \<open>The count a stored value stands for, and the count a key starts from.\<close>

definition countOf :: "jsValue \<Rightarrow> nat" where
  "countOf v = (case v of Num c \<Rightarrow> c | Str s \<Rightarrow> 0)"

definition startCount :: "(string \<rightharpoonup> jsValue) \<Rightarrow> string \<Rightarrow> nat" where
  "startCount m k = (case m k of None \<Rightarrow> 0 | Some v \<Rightarrow> countOf v)"

text \<open>Operators whose \<open>opType\<close> is a property name of \<open>Object.prototype\<close>.\<close>

definition ctorNode :: rawNode where
  "ctorNode = \<lparr>opType = Some ''constructor'', op_type = None, type_prop = None, name = None,
     input = Some [], output_prop = Some [''c''], attribute = None\<rparr>"

definition protoNode :: rawNode where
  "protoNode = \<lparr>opType = Some ''__proto__'', op_type = None, type_prop = None, name = None,
     input = Some [], output_prop = Some [''p''], attribute = None\<rparr>"

definition knownOps :: "rawNode list \<Rightarrow> string list" where
  "knownOps ns = concat (map (\<lambda>n. case opType n of None \<Rightarrow> [] | Some op \<Rightarrow> if op = [] then [] else [op]) ns)"

definition emptyModel :: modelProto where
  "emptyModel = \<lparr>producerName = None, producerVersion = None, graph = None\<rparr>"

definition someFile :: fileInfo where
  "someFile = \<lparr>file_name = ''model.onnx'', file_size = 0\<rparr>"

definition bigGraph :: graphProto where
  "bigGraph = \<lparr>node = Some (replicate 1500 reluNode), graph_input = Some [],
     graph_output = Some [], initializer = Some []\<rparr>"

definition smallGraph :: graphProto where
  "smallGraph = \<lparr>node = Some [reluNode, convNode, reluNode], graph_input = Some [],
     graph_output = Some [], initializer = Some []\<rparr>"

definition inputOnlyGraph :: graphProto where
  "inputOnlyGraph = \<lparr>node = Some [],
     graph_input = Some [\<lparr>vi_name = Some ''x'', vi_type_value = None\<rparr>],
     graph_output = Some [], initializer = Some []\<rparr>"

definition noNodesGraph :: graphProto where
  "noNodesGraph = \<lparr>node = Some [], graph_input = Some [], graph_output = Some [],
     initializer = Some []\<rparr>"

section \<open>The naming rules in the words of the specification\<close>

text \<open>
  A value is present when it is defined and not the empty string. The canonical name
  is \<open>output[0]\<close> if present, else \<open>name\<close> if present, else \<open>node-<i>\<close>; the label
  falls back through \<open>opType\<close>, \<open>op_type\<close>, \<open>type\<close> and \<open>Node <i>\<close>.
\<close>

definition canonicalName :: "rawNode \<Rightarrow> nat \<Rightarrow> string" where
  "canonicalName n i =
     (if truthy (outputFirst n) then the (outputFirst n)
      else if truthy (name n) then the (name n)
      else ''node-'' @ numToString i)"

definition displayLabel :: "rawNode \<Rightarrow> nat \<Rightarrow> string" where
  "displayLabel n i =
     (if truthy (opType n) then the (opType n)
      else if truthy (op_type n) then the (op_type n)
      else if truthy (type_prop n) then the (type_prop n)
      else ''Node '' @ numToString i)"

text \<open>
  The text of an attribute line: the integers of the first attribute of that name joined
  by the multiplication sign, and an en dash when there is no such attribute or it has
  no integers.
\<close>

definition attrText :: "rawNode \<Rightarrow> string \<Rightarrow> string" where
  "attrText n key =
     (case find (\<lambda>a. attr_name a = Some key) (orEmpty (attribute n)) of
        None \<Rightarrow> enDash
      | Some a \<Rightarrow>
          (case ints a of
             None \<Rightarrow> enDash
           | Some [] \<Rightarrow> enDash
           | Some (i # is) \<Rightarrow> join timesSign (map intToString (i # is))))"

text \<open>Operators without outputs: one named \<open>fc\<close>, one with no name and no operator kind.\<close>

definition fcNode :: rawNode where
  "fcNode = \<lparr>opType = None, op_type = Some ''Gemm'', type_prop = None, name = Some ''fc'',
     input = Some [''x''], output_prop = Some [], attribute = None\<rparr>"

definition bareNode :: rawNode where
  "bareNode = \<lparr>opType = None, op_type = None, type_prop = None, name = None,
     input = Some [], output_prop = Some [], attribute = None\<rparr>"

text \<open>The graph of scenario 1 as \<open>layoutGraph\<close> receives it.\<close>

definition scenarioData :: graphData where
  "scenarioData = \<lparr>graph_inputs = [\<lparr>io_name = Some ''x'', io_type = ''unknown''\<rparr>],
     graph_outputs = [\<lparr>io_name = Some ''y'', io_type = ''unknown''\<rparr>],
     graph_nodes = [convNode]\<rparr>"

text \<open>
  A convolution with two of the four attributes, the graph holding it, and a tensor
  name longer than 20 characters as a declared input and as an operator input.
\<close>

definition convWithAttrs :: rawNode where
  "convWithAttrs = \<lparr>opType = Some ''Conv'', op_type = None, type_prop = None, name = None,
     input = Some [''data'', ''conv1.weight'', ''conv1.bias''], output_prop = Some [''conv_out''],
     attribute = Some [\<lparr>attr_name = Some ''kernel_shape'', ints = Some [3, 3]\<rparr>,
                       \<lparr>attr_name = Some ''strides'', ints = Some [1, 1]\<rparr>]\<rparr>"

definition longNameData :: graphData where
  "longNameData = \<lparr>graph_inputs = [\<lparr>io_name = Some ''input_tensor_with_a_long_name'', io_type = ''unknown''\<rparr>],
     graph_outputs = [], graph_nodes = []\<rparr>"

definition longInputNode :: rawNode where
  "longInputNode = \<lparr>opType = Some ''Relu'', op_type = None, type_prop = None, name = None,
     input = Some [''input_tensor_with_a_long_name''], output_prop = Some [''r''],
     attribute = None\<rparr>"

definition convData :: graphData where
  "convData = \<lparr>graph_inputs = [\<lparr>io_name = Some ''data'', io_type = ''unknown''\<rparr>],
     graph_outputs = [], graph_nodes = [convWithAttrs]\<rparr>"

section \<open>Lemmas about id assignment and the two passes\<close>

lemma digitChar_inj: "a < 10 \<Longrightarrow> b < 10 \<Longrightarrow> digitChar a = digitChar b \<Longrightarrow> a = b"
proof -
  assume a: "a < 10" and b: "b < 10" and e: "digitChar a = digitChar b"
  from e have "of_char (char_of (48 + a) :: char) = (of_char (char_of (48 + b) :: char) :: nat)"
    by (simp add: digitChar_def)
  then have "(48 + a) mod 256 = (48 + b) mod 256"
    by (simp only: of_char_of)
  with a b show "a = b" by simp
qed

lemma numToString_nonempty: "numToString n \<noteq> []"
  by (subst numToString.simps) simp

lemma numToString_inj: "numToString a = numToString b \<Longrightarrow> a = b"
proof (induction a arbitrary: b rule: numToString.induct)
  case (1 n)
  show ?case
  proof (cases "n < 10")
    case True
    note n = this
    show ?thesis
    proof (cases "b < 10")
      case True
      with n "1.prems" show ?thesis
        by (simp add: numToString.simps [of n] numToString.simps [of b] digitChar_inj)
    next
      case False
      with n "1.prems" numToString_nonempty [of "b div 10"] show ?thesis
        by (simp add: numToString.simps [of n] numToString.simps [of b])
    qed
  next
    case False
    note n = this
    show ?thesis
    proof (cases "b < 10")
      case True
      with n "1.prems" numToString_nonempty [of "n div 10"] show ?thesis
        by (simp add: numToString.simps [of n] numToString.simps [of b])
    next
      case False
      with n "1.prems" have e: "numToString (n div 10) = numToString (b div 10)"
        and d: "digitChar (n mod 10) = digitChar (b mod 10)"
        by (simp_all add: numToString.simps [of n] numToString.simps [of b])
      from "1.IH" [OF n e] have "n div 10 = b div 10" .
      moreover from d have "n mod 10 = b mod 10"
        by (intro digitChar_inj) simp_all
      ultimately show ?thesis
        by (metis div_mult_mod_eq)
    qed
  qed
qed

lemma idsInv_empty: "idsInv emptyBuilder"
  by (simp add: idsInv_def emptyBuilder_def)

lemma getId_fields:
  assumes "getId nm b = (i, b')"
  shows "nodes b' = nodes b" "edges b' = edges b" "processedInputs b' = processedInputs b"
    "uid b \<le> uid b'" "nameToId b' nm = Some i"
    "nameToId b \<subseteq>\<^sub>m nameToId b'"
    "dom (nameToId b') = insert nm (dom (nameToId b))"
  using assms by (auto simp: getId_def map_le_def split: option.splits)

lemma getId_idsInv:
  assumes inv: "idsInv b" and g: "getId nm b = (i, b')"
  shows "idsInv b'"
proof (cases "nameToId b nm")
  case (Some j)
  with g inv show ?thesis by (simp add: getId_def)
next
  case None
  let ?new = "''id-'' @ numToString (uid b)"
  from None g have b': "b' = b\<lparr>nameToId := (nameToId b)(nm \<mapsto> ?new), uid := uid b + 1\<rparr>"
    by (auto simp: getId_def)
  from inv have u: "1 \<le> uid b"
    and r: "\<And>n j. nameToId b n = Some j \<Longrightarrow> \<exists>k. 1 \<le> k \<and> k < uid b \<and> j = ''id-'' @ numToString k"
    and inj: "inj_on (nameToId b) (dom (nameToId b))"
    by (auto simp: idsInv_def)
  have fresh: "nameToId b n \<noteq> Some ?new" for n
  proof
    assume "nameToId b n = Some ?new"
    from r [OF this] obtain k where "k < uid b" "?new = ''id-'' @ numToString k" by blast
    then show False using numToString_inj [of "uid b" k] by simp
  qed
  have "inj_on ((nameToId b)(nm \<mapsto> ?new)) (dom ((nameToId b)(nm \<mapsto> ?new)))"
  proof (rule inj_onI)
    fix x y
    assume x: "x \<in> dom ((nameToId b)(nm \<mapsto> ?new))"
      and y: "y \<in> dom ((nameToId b)(nm \<mapsto> ?new))"
      and e: "((nameToId b)(nm \<mapsto> ?new)) x = ((nameToId b)(nm \<mapsto> ?new)) y"
    show "x = y"
    proof (cases "x = nm")
      case True
      with e fresh [of y] show ?thesis by (auto split: if_splits)
    next
      case False
      note xn = this
      show ?thesis
      proof (cases "y = nm")
        case True
        with e xn fresh [of x] show ?thesis by (auto split: if_splits)
      next
        case False
        with xn x y e have "x \<in> dom (nameToId b)" "y \<in> dom (nameToId b)"
          "nameToId b x = nameToId b y" by auto
        with inj show ?thesis by (auto dest: inj_onD)
      qed
    qed
  qed
  moreover have "\<exists>k. 1 \<le> k \<and> k < uid b + 1 \<and> j = ''id-'' @ numToString k"
    if "((nameToId b)(nm \<mapsto> ?new)) n = Some j" for n j
  proof (cases "n = nm")
    case True
    with that u show ?thesis by auto
  next
    case False
    with that have "nameToId b n = Some j" by simp
    from r [OF this] show ?thesis by (auto intro: less_SucI)
  qed
  ultimately show ?thesis
    using u by (simp add: idsInv_def b')
qed

lemma idsInv_inj:
  "idsInv b \<Longrightarrow> nameToId b x = Some i \<Longrightarrow> nameToId b y = Some i \<Longrightarrow> x = y"
  unfolding idsInv_def inj_on_def by (metis domI)

lemma idsInv_update [simp]:
  "idsInv (b\<lparr>nodes := ns\<rparr>) = idsInv b"
  "idsInv (b\<lparr>edges := es\<rparr>) = idsInv b"
  "idsInv (b\<lparr>processedInputs := ps\<rparr>) = idsInv b"
  by (simp_all add: idsInv_def)

lemma getIds_spec:
  "idsInv b \<Longrightarrow> getIds nms b = (is, b') \<Longrightarrow>
     idsInv b' \<and> nameToId b \<subseteq>\<^sub>m nameToId b' \<and> length is = length nms \<and>
     (\<forall>k < length nms. nameToId b' (nms ! k) = Some (is ! k))"
proof (induction nms arbitrary: b "is" b')
  case Nil
  then show ?case by simp
next
  case (Cons nm nms)
  obtain i b1 where g: "getId nm b = (i, b1)" by (cases "getId nm b")
  obtain js b2 where gs: "getIds nms b1 = (js, b2)" by (cases "getIds nms b1")
  from Cons.prems g gs have eq: "is = i # js" "b' = b2" by simp_all
  from getId_idsInv [OF Cons.prems(1) g] have inv1: "idsInv b1" .
  from Cons.IH [OF inv1 gs] have ih: "idsInv b2" "nameToId b1 \<subseteq>\<^sub>m nameToId b2"
    "length js = length nms" "\<forall>k < length nms. nameToId b2 (nms ! k) = Some (js ! k)"
    by simp_all
  from getId_fields [OF g] have le1: "nameToId b \<subseteq>\<^sub>m nameToId b1"
    and at1: "nameToId b1 nm = Some i" by simp_all
  from at1 ih(2) have at2: "nameToId b2 nm = Some i"
    by (metis domI map_le_def)
  have "nameToId b2 ((nm # nms) ! k) = Some ((i # js) ! k)" if "k < length (nm # nms)" for k
    using that at2 ih(4) by (cases k) simp_all
  with ih le1 show ?case
    unfolding eq by (auto intro: map_le_trans)
qed


lemma idOf_mono: "nameToId b \<subseteq>\<^sub>m nameToId b' \<Longrightarrow> t \<in> dom (nameToId b) \<Longrightarrow> idOf b' t = idOf b t"
  by (auto simp: idOf_def map_le_def)

lemma pass1Inv_empty: "pass1Inv emptyBuilder"
  using idsInv_empty by (simp add: pass1Inv_def) (simp add: emptyBuilder_def)

lemma inputStep_seen: "inp \<in> set (processedInputs b) \<Longrightarrow> inputStep inp b = b"
  by (simp add: inputStep_def)

lemma inputStep_pass1:
  assumes inv: "pass1Inv b"
  shows "pass1Inv (inputStep inp b) \<and> nameToId b \<subseteq>\<^sub>m nameToId (inputStep inp b) \<and>
         processedInputs (inputStep inp b) =
           (if inp \<in> set (processedInputs b) then processedInputs b
            else processedInputs b @ [inp])"
proof (cases "inp \<in> set (processedInputs b)")
  case True
  with inv show ?thesis by (simp add: inputStep_seen)
next
  case False
  obtain i b1 where g: "getId inp b = (i, b1)" by (cases "getId inp b")
  let ?P = "processedInputs b"
  let ?b' = "inputStep inp b"
  note f = getId_fields [OF g]
  from inv have ids: "idsInv b" and e: "edges b = []" and d: "dom (nameToId b) = set ?P"
    and n: "nodes b = map (\<lambda>(k, t). mkInputNode (idOf b t) k t) (enumerate 0 ?P)"
    by (simp_all add: pass1Inv_def)
  from False g have b': "?b' = b1\<lparr>nodes := nodes b @ [mkInputNode i (length ?P) inp],
        processedInputs := ?P @ [inp]\<rparr>"
    by (simp add: inputStep_def f mkInputNode_def)
  have nm: "nameToId ?b' = nameToId b1" by (simp add: b')
  have le: "nameToId b \<subseteq>\<^sub>m nameToId ?b'" using f(6) by (simp add: nm)
  have old: "idOf ?b' t = idOf b t" if "t \<in> set ?P" for t
    using that d le by (simp add: idOf_mono)
  have new: "idOf ?b' inp = i" using f(5) by (simp add: idOf_def nm)
  have "map (\<lambda>(k, t). mkInputNode (idOf ?b' t) k t) (enumerate 0 ?P)
      = map (\<lambda>(k, t). mkInputNode (idOf b t) k t) (enumerate 0 ?P)"
    by (rule map_cong) (auto simp: in_set_enumerate_eq old)
  then have "nodes ?b' = map (\<lambda>(k, t). mkInputNode (idOf ?b' t) k t)
       (enumerate 0 (processedInputs ?b'))"
    using n new by (simp add: b' enumerate_append_eq)
  moreover have "idsInv ?b'" using getId_idsInv [OF ids g] by (simp add: b')
  moreover have "edges ?b' = []" using e f by (simp add: b')
  moreover have "dom (nameToId ?b') = set (processedInputs ?b')"
    using f(7) d by (simp add: b')
  moreover have "processedInputs ?b' = ?P @ [inp]" by (simp add: b')
  ultimately show ?thesis using le False by (simp add: pass1Inv_def)
qed

lemma fold_inputStep:
  "pass1Inv b \<Longrightarrow>
     pass1Inv (fold inputStep xs b) \<and> nameToId b \<subseteq>\<^sub>m nameToId (fold inputStep xs b) \<and>
     processedInputs (fold inputStep xs b) = addNew (processedInputs b) xs"
proof (induction xs arbitrary: b)
  case Nil
  then show ?case by simp
next
  case (Cons x xs)
  from inputStep_pass1 [OF Cons.prems, of x]
  have 1: "pass1Inv (inputStep x b)" and 2: "nameToId b \<subseteq>\<^sub>m nameToId (inputStep x b)"
    and 3: "processedInputs (inputStep x b) =
      (if x \<in> set (processedInputs b) then processedInputs b else processedInputs b @ [x])"
    by simp_all
  from Cons.IH [OF 1] 2 3 show ?case
    by (auto intro: map_le_trans)
qed

lemma createInputNodes_fold:
  "createInputNodes ns b = fold inputStep (allInputs ns) b"
  unfolding createInputNodes_def allInputs_def
  by (induction ns arbitrary: b) (simp_all add: inputsOf_def split: option.splits)

lemma set_addNew: "set (addNew seen xs) = set seen \<union> set xs"
  by (induction xs arbitrary: seen) auto

lemma distinct_addNew: "distinct seen \<Longrightarrow> distinct (addNew seen xs)"
  by (induction xs arbitrary: seen) auto

lemma createInputNodes_spec:
  "pass1Inv (createInputNodes ns emptyBuilder) \<and>
   processedInputs (createInputNodes ns emptyBuilder) = addNew [] (allInputs ns)"
  using fold_inputStep [OF pass1Inv_empty, of "allInputs ns"]
  by (simp add: createInputNodes_fold) (simp add: emptyBuilder_def)

lemma edgeStep_spec:
  assumes inv: "idsInv b"
  shows "idsInv (edgeStep nid inp b) \<and> nameToId b \<subseteq>\<^sub>m nameToId (edgeStep nid inp b) \<and>
         nodes (edgeStep nid inp b) = nodes b \<and>
         processedInputs (edgeStep nid inp b) = processedInputs b \<and>
         edges (edgeStep nid inp b) = edges b @ [mkEdge (idOf (edgeStep nid inp b) inp) nid] \<and>
         dom (nameToId (edgeStep nid inp b)) = insert inp (dom (nameToId b))"
proof -
  obtain i b1 where g: "getId inp b = (i, b1)" by (cases "getId inp b")
  note f = getId_fields [OF g]
  have b': "edgeStep nid inp b = b1\<lparr>edges := edges b @ [mkEdge i nid]\<rparr>"
    using g by (simp add: edgeStep_def f mkEdge_def)
  show ?thesis
    using getId_idsInv [OF inv g] f by (simp add: b' idOf_def)
qed

lemma fold_edgeStep:
  "idsInv b \<Longrightarrow>
     idsInv (fold (edgeStep nid) xs b) \<and> nameToId b \<subseteq>\<^sub>m nameToId (fold (edgeStep nid) xs b) \<and>
     nodes (fold (edgeStep nid) xs b) = nodes b \<and>
     processedInputs (fold (edgeStep nid) xs b) = processedInputs b \<and>
     edges (fold (edgeStep nid) xs b) =
       edges b @ map (\<lambda>t. mkEdge (idOf (fold (edgeStep nid) xs b) t) nid) xs \<and>
     dom (nameToId (fold (edgeStep nid) xs b)) = dom (nameToId b) \<union> set xs"
proof (induction xs arbitrary: b)
  case Nil
  then show ?case by simp
next
  case (Cons x xs)
  let ?b1 = "edgeStep nid x b"
  let ?b' = "fold (edgeStep nid) xs ?b1"
  from edgeStep_spec [OF Cons.prems, of nid x]
  have s: "idsInv ?b1" "nameToId b \<subseteq>\<^sub>m nameToId ?b1" "nodes ?b1 = nodes b"
    "processedInputs ?b1 = processedInputs b"
    "edges ?b1 = edges b @ [mkEdge (idOf ?b1 x) nid]"
    "dom (nameToId ?b1) = insert x (dom (nameToId b))"
    by simp_all
  from Cons.IH [OF s(1)]
  have ih: "idsInv ?b'" "nameToId ?b1 \<subseteq>\<^sub>m nameToId ?b'" "nodes ?b' = nodes ?b1"
    "processedInputs ?b' = processedInputs ?b1"
    "edges ?b' = edges ?b1 @ map (\<lambda>t. mkEdge (idOf ?b' t) nid) xs"
    "dom (nameToId ?b') = dom (nameToId ?b1) \<union> set xs"
    by simp_all
  have "idOf ?b' x = idOf ?b1 x"
    using ih(2) s(6) by (simp add: idOf_mono)
  with s ih show ?case
    by (auto intro: map_le_trans)
qed

lemma operatorStep_spec:
  assumes inv: "idsInv b"
  shows "idsInv (operatorStep (index, n) b) \<and>
         nameToId b \<subseteq>\<^sub>m nameToId (operatorStep (index, n) b) \<and>
         processedInputs (operatorStep (index, n) b) = processedInputs b \<and>
         nodes (operatorStep (index, n) b) = nodes b @ opNodesOf (operatorStep (index, n) b) index [n] \<and>
         edges (operatorStep (index, n) b) = edges b @ edgesOf (operatorStep (index, n) b) index [n] \<and>
         dom (nameToId (operatorStep (index, n) b)) =
           dom (nameToId b) \<union> set (inputsOf n) \<union> {outputName n index}"
proof -
  let ?nm = "outputName n index"
  obtain i b1 where g: "getId ?nm b = (i, b1)" by (cases "getId ?nm b")
  note f = getId_fields [OF g]
  let ?b2 = "b1\<lparr>nodes := nodes b @ [mkOperatorNode i index n]\<rparr>"
  let ?b' = "fold (edgeStep i) (inputsOf n) ?b2"
  have b': "operatorStep (index, n) b = ?b'"
    using g by (simp add: operatorStep_def f mkOperatorNode_def inputsOf_def split: option.splits)
  have inv2: "idsInv ?b2" using getId_idsInv [OF inv g] by simp
  from fold_edgeStep [OF inv2, of i "inputsOf n"]
  have fe: "idsInv ?b'" "nameToId ?b2 \<subseteq>\<^sub>m nameToId ?b'" "nodes ?b' = nodes ?b2"
    "processedInputs ?b' = processedInputs ?b2"
    "edges ?b' = edges ?b2 @ map (\<lambda>t. mkEdge (idOf ?b' t) i) (inputsOf n)"
    "dom (nameToId ?b') = dom (nameToId ?b2) \<union> set (inputsOf n)"
    by simp_all
  have le1: "nameToId b1 \<subseteq>\<^sub>m nameToId ?b'" using fe(2) by simp
  have "?nm \<in> dom (nameToId b1)" using f(5) by auto
  then have "idOf ?b' ?nm = idOf b1 ?nm" using le1 by (rule idOf_mono [rotated])
  then have i: "idOf ?b' ?nm = i" using f(5) by (simp add: idOf_def)
  have "nameToId b \<subseteq>\<^sub>m nameToId ?b'" using f(6) le1 by (rule map_le_trans)
  with fe f i show ?thesis
    unfolding b' by (auto simp: opNodesOf_def edgesOf_def)
qed

lemma idOf_cong_opNodes:
  assumes "nameToId b \<subseteq>\<^sub>m nameToId b'" and "set (outputNames s ns) \<subseteq> dom (nameToId b)"
  shows "opNodesOf b' s ns = opNodesOf b s ns"
proof -
  have "idOf b' (outputName n i) = idOf b (outputName n i)"
    if "(i, n) \<in> set (enumerate s ns)" for i n
  proof -
    from that have "outputName n i \<in> set (outputNames s ns)"
      by (force simp: outputNames_def)
    with assms(2) have "outputName n i \<in> dom (nameToId b)" by blast
    with assms(1) show ?thesis by (rule idOf_mono)
  qed
  then show ?thesis
    unfolding opNodesOf_def by (intro map_cong) auto
qed

lemma idOf_cong_edges:
  assumes "nameToId b \<subseteq>\<^sub>m nameToId b'" and "set (outputNames s ns) \<subseteq> dom (nameToId b)"
    and "set (allInputs ns) \<subseteq> dom (nameToId b)"
  shows "edgesOf b' s ns = edgesOf b s ns"
proof -
  have "map (\<lambda>t. mkEdge (idOf b' t) (idOf b' (outputName n i))) (inputsOf n)
      = map (\<lambda>t. mkEdge (idOf b t) (idOf b (outputName n i))) (inputsOf n)"
    if "(i, n) \<in> set (enumerate s ns)" for i n
  proof (rule map_cong [OF refl])
    fix t assume t: "t \<in> set (inputsOf n)"
    from that have "n \<in> set ns" by (auto simp: in_set_enumerate_eq)
    with t have "t \<in> set (allInputs ns)" by (auto simp: allInputs_def)
    with assms(3) have 1: "t \<in> dom (nameToId b)" by blast
    from that have "outputName n i \<in> set (outputNames s ns)"
      by (force simp: outputNames_def)
    with assms(2) have 2: "outputName n i \<in> dom (nameToId b)" by blast
    from 1 2 assms(1) show "mkEdge (idOf b' t) (idOf b' (outputName n i))
        = mkEdge (idOf b t) (idOf b (outputName n i))"
      by (simp add: idOf_mono)
  qed
  then show ?thesis
    unfolding edgesOf_def by (intro arg_cong [where f = concat] map_cong) auto
qed

lemma fold_operatorStep:
  "idsInv b \<Longrightarrow>
     idsInv (fold operatorStep (enumerate s ns) b) \<and>
     nameToId b \<subseteq>\<^sub>m nameToId (fold operatorStep (enumerate s ns) b) \<and>
     processedInputs (fold operatorStep (enumerate s ns) b) = processedInputs b \<and>
     nodes (fold operatorStep (enumerate s ns) b) =
       nodes b @ opNodesOf (fold operatorStep (enumerate s ns) b) s ns \<and>
     edges (fold operatorStep (enumerate s ns) b) =
       edges b @ edgesOf (fold operatorStep (enumerate s ns) b) s ns \<and>
     dom (nameToId (fold operatorStep (enumerate s ns) b)) =
       dom (nameToId b) \<union> set (allInputs ns) \<union> set (outputNames s ns)"
proof (induction ns arbitrary: s b)
  case Nil
  then show ?case by (simp add: opNodesOf_def edgesOf_def allInputs_def outputNames_def)
next
  case (Cons n ns)
  let ?b1 = "operatorStep (s, n) b"
  let ?b' = "fold operatorStep (enumerate (Suc s) ns) ?b1"
  from operatorStep_spec [OF Cons.prems, of s n]
  have st: "idsInv ?b1" "nameToId b \<subseteq>\<^sub>m nameToId ?b1"
    "processedInputs ?b1 = processedInputs b"
    "nodes ?b1 = nodes b @ opNodesOf ?b1 s [n]"
    "edges ?b1 = edges b @ edgesOf ?b1 s [n]"
    "dom (nameToId ?b1) = dom (nameToId b) \<union> set (inputsOf n) \<union> {outputName n s}"
    by simp_all
  from Cons.IH [OF st(1), of "Suc s"]
  have ih: "idsInv ?b'" "nameToId ?b1 \<subseteq>\<^sub>m nameToId ?b'"
    "processedInputs ?b' = processedInputs ?b1"
    "nodes ?b' = nodes ?b1 @ opNodesOf ?b' (Suc s) ns"
    "edges ?b' = edges ?b1 @ edgesOf ?b' (Suc s) ns"
    "dom (nameToId ?b') = dom (nameToId ?b1) \<union> set (allInputs ns) \<union> set (outputNames (Suc s) ns)"
    by simp_all
  have d1: "set (outputNames s [n]) \<subseteq> dom (nameToId ?b1)"
    using st(6) by (simp add: outputNames_def)
  have d2: "set (allInputs [n]) \<subseteq> dom (nameToId ?b1)"
    using st(6) by (auto simp: allInputs_def)
  have n1: "opNodesOf ?b' s [n] = opNodesOf ?b1 s [n]"
    using ih(2) d1 by (rule idOf_cong_opNodes)
  have e1: "edgesOf ?b' s [n] = edgesOf ?b1 s [n]"
    using ih(2) d1 d2 by (rule idOf_cong_edges)
  have split_n: "opNodesOf ?b' s (n # ns) = opNodesOf ?b' s [n] @ opNodesOf ?b' (Suc s) ns"
    by (simp add: opNodesOf_def)
  have split_e: "edgesOf ?b' s (n # ns) = edgesOf ?b' s [n] @ edgesOf ?b' (Suc s) ns"
    by (simp add: edgesOf_def)
  have f: "fold operatorStep (enumerate s (n # ns)) b = ?b'" by simp
  have "nameToId b \<subseteq>\<^sub>m nameToId ?b'" using st(2) ih(2) by (rule map_le_trans)
  moreover have "dom (nameToId ?b') =
      dom (nameToId b) \<union> set (allInputs (n # ns)) \<union> set (outputNames s (n # ns))"
    using ih(6) st(6) by (auto simp: allInputs_def outputNames_def)
  ultimately show ?case
    unfolding f using ih st n1 e1 split_n split_e by simp
qed

lemma buildState_spec:
  "idsInv (buildState ns) \<and>
   nodes (buildState ns) = inputNodesOf (buildState ns) ns @ opNodesOf (buildState ns) 0 ns \<and>
   edges (buildState ns) = edgesOf (buildState ns) 0 ns \<and>
   dom (nameToId (buildState ns)) = set (allInputs ns) \<union> set (outputNames 0 ns)"
proof -
  let ?b1 = "createInputNodes ns emptyBuilder"
  let ?b' = "buildState ns"
  from createInputNodes_spec [of ns]
  have p: "pass1Inv ?b1" and pi: "processedInputs ?b1 = addNew [] (allInputs ns)" by simp_all
  from p have inv1: "idsInv ?b1" and e1: "edges ?b1 = []"
    and d1: "dom (nameToId ?b1) = set (allInputs ns)"
    and n1: "nodes ?b1 = inputNodesOf ?b1 ns"
    by (simp_all add: pass1Inv_def pi set_addNew inputNodesOf_def)
  have b': "?b' = fold operatorStep (enumerate 0 ns) ?b1"
    by (simp add: buildState_def createOperatorNodes_def)
  from fold_operatorStep [OF inv1, of 0 ns]
  have fo: "idsInv ?b'" "nameToId ?b1 \<subseteq>\<^sub>m nameToId ?b'"
    "nodes ?b' = nodes ?b1 @ opNodesOf ?b' 0 ns"
    "edges ?b' = edges ?b1 @ edgesOf ?b' 0 ns"
    "dom (nameToId ?b') = dom (nameToId ?b1) \<union> set (allInputs ns) \<union> set (outputNames 0 ns)"
    unfolding b' by simp_all
  have "idOf ?b' t = idOf ?b1 t" if "t \<in> set (addNew [] (allInputs ns))" for t
  proof -
    from that d1 have "t \<in> dom (nameToId ?b1)" by (simp add: set_addNew)
    with fo(2) show ?thesis by (rule idOf_mono)
  qed
  then have "inputNodesOf ?b' ns = inputNodesOf ?b1 ns"
    unfolding inputNodesOf_def
    by (intro map_cong) (auto simp: in_set_enumerate_eq)
  with fo n1 e1 d1 show ?thesis by auto
qed


subsection \<open>The order of id allocation\<close>

lemma indexOf_append_in: "t \<in> set L \<Longrightarrow> indexOf (L @ M) t = indexOf L t"
  by (induction L) auto

lemma indexOf_append_notin: "t \<notin> set L \<Longrightarrow> indexOf (L @ M) t = length L + indexOf M t"
  by (induction L) auto

lemma idMap_snoc:
  "t \<notin> set L \<Longrightarrow> idMap (L @ [t]) = (idMap L)(t \<mapsto> ''id-'' @ numToString (Suc (length L)))"
  by (rule ext) (auto simp: idMap_def indexOf_append_in indexOf_append_notin)

lemma allocInv_update [simp]:
  "allocInv L (b\<lparr>nodes := ns\<rparr>) = allocInv L b"
  "allocInv L (b\<lparr>edges := es\<rparr>) = allocInv L b"
  "allocInv L (b\<lparr>processedInputs := ps\<rparr>) = allocInv L b"
  by (simp_all add: allocInv_def)

lemma allocInv_empty: "allocInv [] emptyBuilder"
  by (auto simp: allocInv_def emptyBuilder_def idMap_def)

lemma allocInv_dom: "allocInv L b \<Longrightarrow> dom (nameToId b) = set L"
  by (auto simp: allocInv_def idMap_def split: if_splits)

lemma getId_alloc:
  assumes "allocInv L b"
  shows "allocInv (addNew L [t]) (snd (getId t b))"
proof (cases "t \<in> set L")
  case True
  with assms have "nameToId b t \<noteq> None" by (simp add: allocInv_def idMap_def)
  then have "snd (getId t b) = b" by (auto simp: getId_def)
  with True assms show ?thesis by simp
next
  case False
  with assms have "nameToId b t = None" by (simp add: allocInv_def idMap_def)
  then have "snd (getId t b) = b\<lparr>nameToId := (nameToId b)(t \<mapsto> ''id-'' @ numToString (uid b)),
       uid := uid b + 1\<rparr>"
    by (simp add: getId_def)
  with False assms show ?thesis by (simp add: allocInv_def idMap_snoc)
qed

lemma addNew_append: "addNew L (xs @ ys) = addNew (addNew L xs) ys"
  by (induction xs arbitrary: L) simp_all

lemma addNew_Cons: "addNew L (x # xs) = addNew (addNew L [x]) xs"
  by simp

lemma addNew_known: "set xs \<subseteq> set L \<Longrightarrow> addNew L xs = L"
  by (induction xs) simp_all

lemma edgeStep_alloc:
  assumes "allocInv L b"
  shows "allocInv (addNew L [t]) (edgeStep nid t b)"
proof -
  obtain j b1 where g: "getId t b = (j, b1)" by (cases "getId t b")
  from getId_alloc [OF assms, of t] g have "allocInv (addNew L [t]) b1" by simp
  then show ?thesis using g by (simp add: edgeStep_def)
qed

lemma fold_edgeStep_alloc:
  "allocInv L b \<Longrightarrow> allocInv (addNew L xs) (fold (edgeStep nid) xs b)"
proof (induction xs arbitrary: L b)
  case Nil
  then show ?case by simp
next
  case (Cons x xs)
  from Cons.IH [OF edgeStep_alloc [OF Cons.prems, where t = x and nid = nid]] show ?case
    by (simp del: addNew.simps add: addNew_Cons [of L x xs])
qed

lemma inputStep_alloc:
  assumes "pass1Inv b" and "allocInv L b"
  shows "allocInv (addNew L [t]) (inputStep t b)"
proof (cases "t \<in> set (processedInputs b)")
  case True
  with assms have "t \<in> set L" by (auto simp: pass1Inv_def dest: allocInv_dom)
  with True assms(2) show ?thesis by (simp add: inputStep_seen)
next
  case False
  obtain j b1 where g: "getId t b = (j, b1)" by (cases "getId t b")
  from getId_alloc [OF assms(2), of t] g have "allocInv (addNew L [t]) b1" by simp
  then show ?thesis using g False by (simp add: inputStep_def)
qed

lemma fold_inputStep_alloc:
  "pass1Inv b \<Longrightarrow> allocInv L b \<Longrightarrow> allocInv (addNew L xs) (fold inputStep xs b)"
proof (induction xs arbitrary: L b)
  case Nil
  then show ?case by simp
next
  case (Cons x xs)
  from inputStep_pass1 [OF Cons.prems(1), of x] have p: "pass1Inv (inputStep x b)" by simp
  from Cons.IH [OF p inputStep_alloc [OF Cons.prems, where t = x]] show ?case
    by (simp del: addNew.simps add: addNew_Cons [of L x xs])
qed

lemma operatorStep_alloc:
  assumes "allocInv L b"
  shows "allocInv (addNew L (outputName n i # inputsOf n)) (operatorStep (i, n) b)"
proof -
  obtain j b1 where g: "getId (outputName n i) b = (j, b1)"
    by (cases "getId (outputName n i) b")
  from getId_alloc [OF assms, of "outputName n i"] g
  have 1: "allocInv (addNew L [outputName n i]) b1" by simp
  let ?b2 = "b1\<lparr>nodes := nodes b1 @ [\<lparr>node_id = j, node_type = ''default'',
                        position_x = 300 + (i mod 4) * 200,
                        position_y = 100 + (i div 4) * 150,
                        data_label = operatorLabel n i\<rparr>]\<rparr>"
  from 1 have 2: "allocInv (addNew L [outputName n i]) ?b2" by simp
  have "operatorStep (i, n) b = fold (edgeStep j) (inputsOf n) ?b2"
    using g by (simp add: operatorStep_def inputsOf_def split: option.splits)
  with fold_edgeStep_alloc [OF 2, where nid = j and xs = "inputsOf n"] show ?thesis
    by (simp del: addNew.simps add: addNew_Cons [of L "outputName n i" "inputsOf n"])
qed

lemma requests_Cons:
  "requests s (n # ns) = (outputName n s # inputsOf n) @ requests (Suc s) ns"
  by (simp add: requests_def)

lemma fold_operatorStep_alloc:
  "allocInv L b \<Longrightarrow> allocInv (addNew L (requests s ns)) (fold operatorStep (enumerate s ns) b)"
proof (induction ns arbitrary: L b s)
  case Nil
  then show ?case by (simp add: requests_def)
next
  case (Cons n ns)
  have "allocInv (addNew (addNew L (outputName n s # inputsOf n)) (requests (Suc s) ns))
      (fold operatorStep (enumerate (Suc s) ns) (operatorStep (s, n) b))"
    by (rule Cons.IH [OF operatorStep_alloc [OF Cons.prems]])
  moreover have "addNew L (requests s (n # ns)) =
      addNew (addNew L (outputName n s # inputsOf n)) (requests (Suc s) ns)"
    unfolding requests_Cons by (rule addNew_append)
  moreover have "fold operatorStep (enumerate s (n # ns)) b =
      fold operatorStep (enumerate (Suc s) ns) (operatorStep (s, n) b)" by simp
  ultimately show ?case by simp
qed

lemma addNew_requests:
  "set (allInputs ns) \<subseteq> set L \<Longrightarrow> addNew L (requests s ns) = addNew L (outputNames s ns)"
proof (induction ns arbitrary: L s)
  case Nil
  then show ?case by (simp add: requests_def outputNames_def)
next
  case (Cons n ns)
  let ?L' = "addNew L [outputName n s]"
  from Cons.prems have ins: "set (inputsOf n) \<subseteq> set ?L'" and rest: "set (allInputs ns) \<subseteq> set ?L'"
    by (auto simp: allInputs_def)
  have "addNew L (requests s (n # ns)) = addNew ?L' (inputsOf n @ requests (Suc s) ns)"
    unfolding requests_Cons by simp
  also have "\<dots> = addNew (addNew ?L' (inputsOf n)) (requests (Suc s) ns)"
    by (rule addNew_append)
  also have "\<dots> = addNew ?L' (requests (Suc s) ns)"
    using ins by (simp only: addNew_known)
  also have "\<dots> = addNew ?L' (outputNames (Suc s) ns)"
    using rest by (rule Cons.IH)
  also have "\<dots> = addNew L (outputNames s (n # ns))"
    by (simp add: outputNames_def)
  finally show ?case .
qed

lemma buildState_alloc: "allocInv (requestOrder ns) (buildState ns)"
proof -
  let ?b1 = "createInputNodes ns emptyBuilder"
  let ?L1 = "addNew [] (allInputs ns)"
  have 1: "allocInv ?L1 ?b1"
    using fold_inputStep_alloc [OF pass1Inv_empty allocInv_empty, of "allInputs ns"]
    by (simp add: createInputNodes_fold)
  have "allocInv (addNew ?L1 (requests 0 ns)) (buildState ns)"
    using fold_operatorStep_alloc [OF 1, of 0 ns]
    by (simp add: buildState_def createOperatorNodes_def)
  moreover have "addNew ?L1 (requests 0 ns) = addNew ?L1 (outputNames 0 ns)"
    by (rule addNew_requests) (simp add: set_addNew)
  ultimately show ?thesis by (simp add: requestOrder_def addNew_append)
qed

lemma set_requestOrder: "set (requestOrder ns) = set (allInputs ns) \<union> set (outputNames 0 ns)"
  by (simp add: requestOrder_def set_addNew)

lemma idOf_buildState:
  "t \<in> set (allInputs ns) \<union> set (outputNames 0 ns) \<Longrightarrow> idOf (buildState ns) t = tensorId ns t"
  using buildState_alloc [of ns]
  by (simp add: allocInv_def idOf_def idMap_def tensorId_def set_requestOrder)

lemma in_outputNames: "(i, n) \<in> set (enumerate s ns) \<Longrightarrow> outputName n i \<in> set (outputNames s ns)"
  by (force simp: outputNames_def)

lemma in_allInputs: "(i, n) \<in> set (enumerate s ns) \<Longrightarrow> t \<in> set (inputsOf n) \<Longrightarrow> t \<in> set (allInputs ns)"
  by (auto simp: allInputs_def in_set_enumerate_eq)

lemma buildGraph_closed_form: "buildGraph (Some ns) = (specNodes ns, specEdges ns)"
proof -
  let ?b = "buildState ns"
  from buildState_spec [of ns]
  have n: "nodes ?b = inputNodesOf ?b ns @ opNodesOf ?b 0 ns"
    and e: "edges ?b = edgesOf ?b 0 ns" by simp_all
  have 1: "inputNodesOf ?b ns =
      map (\<lambda>(k, t). mkInputNode (tensorId ns t) k t) (enumerate 0 (addNew [] (allInputs ns)))"
  proof -
    have "idOf ?b t = tensorId ns t" if "(k, t) \<in> set (enumerate 0 (addNew [] (allInputs ns)))" for k t
    proof -
      from that have "t \<in> set (addNew [] (allInputs ns))" by (auto simp: in_set_enumerate_eq)
      then show ?thesis by (simp add: set_addNew idOf_buildState)
    qed
    then show ?thesis unfolding inputNodesOf_def by (intro map_cong) auto
  qed
  have 2: "opNodesOf ?b 0 ns =
      map (\<lambda>(i, n). mkOperatorNode (tensorId ns (outputName n i)) i n) (enumerate 0 ns)"
    unfolding opNodesOf_def
    by (intro map_cong) (auto simp: idOf_buildState dest: in_outputNames)
  have 3: "edgesOf ?b 0 ns = specEdges ns"
  proof -
    have "mkEdge (idOf ?b t) (idOf ?b (outputName n i)) =
        mkEdge (tensorId ns t) (tensorId ns (outputName n i))"
      if "(i, n) \<in> set (enumerate 0 ns)" and "t \<in> set (inputsOf n)" for i n t
      using in_outputNames [OF that(1)] in_allInputs [OF that]
      by (simp add: idOf_buildState)
    then show ?thesis
      unfolding edgesOf_def specEdges_def
      by (intro arg_cong [where f = concat] map_cong) auto
  qed
  show ?thesis
    by (simp add: buildGraph_def n e 1 2 3 specNodes_def)
qed

section \<open>Lemmas about the parser\<close>

lemma parse_success:
  assumes "graph m = Some g"
  shows "parseONNXModelComplete f (Inr m) =
    \<lparr>result_file = Some \<lparr>fs_name = file_name f, fs_size = file_size f,
        sizeFormatted = toFixed2_div1024 (file_size f) @ '' KB''\<rparr>,
      result_model = Some \<lparr>ms_producerName = orElse (producerName m) ''Unknown'',
        ms_producerVersion = orElse (producerVersion m) ''Unknown''\<rparr>,
      result_graph = Some \<lparr>inputs = map summarize (orEmpty (graph_input g)),
        outputs = map summarize (orEmpty (graph_output g)),
        summary_nodes = orEmpty (node g),
        initializers = orEmpty (initializer g)\<rparr>,
      result_analysis = Some \<lparr>totalInputs = lengthOr0 (graph_input g),
        totalOutputs = lengthOr0 (graph_output g),
        totalNodes = length (orEmpty (node g)),
        totalInitializers = lengthOr0 (initializer g),
        modelComplexity = complexityOf (length (orEmpty (node g))),
        operatorFrequency = fold countOp (orEmpty (node g)) Map.empty\<rparr>,
      result_error = None,
      parsingMethod = ''runtime-load''\<rparr>"
  using assms by (simp add: parseONNXModelComplete_def tryBlock_def Let_def)

lemma parse_decode_error:
  "parseONNXModelComplete f (Inl err) =
     \<lparr>result_file = None, result_model = None, result_graph = None,
      result_analysis = None, result_error = Some (message err),
      parsingMethod = ''fallback''\<rparr>"
  by (simp add: parseONNXModelComplete_def tryBlock_def)


lemma complexityOf_cases:
  "(complexityOf c = ''High'') = (1000 < c)"
  "(complexityOf c = ''Medium'') = (100 < c \<and> c \<le> 1000)"
  "(complexityOf c = ''Low'') = (c \<le> 100)"
  by (auto simp: complexityOf_def)



lemma countOp_other: "opType n \<noteq> Some k \<Longrightarrow> countOp n m k = m k"
  by (auto simp: countOp_def split: option.splits)

lemma countOp_empty_key: "countOp n m [] = m []"
  by (auto simp: countOp_def split: option.splits)

lemma countOp_same:
  assumes "opType n = Some k" and "k \<noteq> []" and "k \<notin> set objectPrototypeNames"
    and "m k = None \<or> (\<exists>c. m k = Some (Num c))"
  shows "countOp n m k = Some (Num (startCount m k + 1))"
  using assms by (auto simp: countOp_def startCount_def countOf_def plusOne_def)

lemma fold_countOp_untouched:
  "\<forall>n \<in> set ns. opType n \<noteq> Some k \<Longrightarrow> fold countOp ns m k = m k"
  by (induction ns arbitrary: m) (simp_all add: countOp_other)

lemma fold_countOp_empty_key: "fold countOp ns m [] = m []"
  by (induction ns arbitrary: m) (simp_all add: countOp_empty_key)

lemma fold_countOp:
  assumes "k \<noteq> []" and "k \<notin> set objectPrototypeNames"
    and "m k = None \<or> (\<exists>c. m k = Some (Num c))"
  shows "fold countOp ns m k =
     (if 0 < occurrences k ns then Some (Num (startCount m k + occurrences k ns)) else m k)"
  using assms(3)
proof (induction ns arbitrary: m)
  case Nil
  then show ?case by (simp add: occurrences_def)
next
  case (Cons n ns)
  show ?case
  proof (cases "opType n = Some k")
    case True
    have 1: "countOp n m k = Some (Num (startCount m k + 1))"
      using True assms(1,2) Cons.prems by (rule countOp_same)
    then have 2: "startCount (countOp n m) k = startCount m k + 1"
      by (simp add: startCount_def countOf_def)
    from 1 have "countOp n m k = None \<or> (\<exists>c. countOp n m k = Some (Num c))" by simp
    from Cons.IH [of "countOp n m", OF this] 1 2 True show ?thesis
      by (simp add: occurrences_def)
  next
    case False
    then have 1: "countOp n m k = m k" by (rule countOp_other)
    then have 2: "startCount (countOp n m) k = startCount m k"
      by (simp add: startCount_def)
    from 1 Cons.prems have "countOp n m k = None \<or> (\<exists>c. countOp n m k = Some (Num c))"
      by simp
    from Cons.IH [of "countOp n m", OF this] 1 2 False show ?thesis
      by (simp add: occurrences_def)
  qed
qed

lemma operatorFrequency_plain:
  assumes "k \<notin> set objectPrototypeNames"
  shows "fold countOp ns Map.empty k =
     (if k \<noteq> [] \<and> 0 < occurrences k ns then Some (Num (occurrences k ns)) else None)"
proof (cases "k = []")
  case True
  then show ?thesis by (simp add: fold_countOp_empty_key)
next
  case False
  have "fold countOp ns Map.empty k =
     (if 0 < occurrences k ns then Some (Num (startCount Map.empty k + occurrences k ns))
      else Map.empty k)"
    using False assms by (rule fold_countOp) simp
  with False show ?thesis by (simp add: startCount_def)
qed

lemma operatorFrequency_lookup:
  assumes "\<forall>n \<in> set ns. \<exists>op. opType n = Some op \<and> op \<noteq> [] \<and> op \<notin> set objectPrototypeNames"
  shows "fold countOp ns Map.empty k =
     (if k \<noteq> [] \<and> 0 < occurrences k ns then Some (Num (occurrences k ns)) else None)"
proof (cases "k \<in> set objectPrototypeNames")
  case False
  then show ?thesis by (rule operatorFrequency_plain)
next
  case True
  with assms have no: "\<forall>n \<in> set ns. opType n \<noteq> Some k" by fastforce
  then have "occurrences k ns = 0" by (simp add: occurrences_def)
  with fold_countOp_untouched [OF no, of Map.empty] show ?thesis by simp
qed

lemma count_knownOps: "op \<noteq> [] \<Longrightarrow> count_list (knownOps ns) op = occurrences op ns"
  by (induction ns) (auto simp: knownOps_def occurrences_def split: option.splits)

lemma set_knownOps: "set (knownOps ns) = {op. op \<noteq> [] \<and> 0 < occurrences op ns}"
  by (induction ns) (auto simp: knownOps_def occurrences_def split: option.splits)

lemma length_knownOps: "\<forall>n \<in> set ns. truthy (opType n) \<Longrightarrow> length (knownOps ns) = length ns"
  by (induction ns) (auto simp: knownOps_def truthy_def split: option.splits)

lemma dom_frequency:
  assumes "\<forall>n \<in> set ns. \<exists>op. opType n = Some op \<and> op \<noteq> [] \<and> op \<notin> set objectPrototypeNames"
  shows "dom (fold countOp ns Map.empty) = set (knownOps ns)"
  by (auto simp: operatorFrequency_lookup [OF assms] set_knownOps split: if_splits)

lemma frequency_values_are_numbers:
  assumes "\<forall>n \<in> set ns. \<exists>op. opType n = Some op \<and> op \<noteq> [] \<and> op \<notin> set objectPrototypeNames"
    and "fold countOp ns Map.empty k = Some v"
  shows "\<exists>c. v = Num c"
  using assms(2) by (auto simp: operatorFrequency_lookup [OF assms(1)] split: if_splits)

lemma frequency_sum:
  assumes "\<forall>n \<in> set ns. \<exists>op. opType n = Some op \<and> op \<noteq> [] \<and> op \<notin> set objectPrototypeNames"
  shows "(\<Sum>op \<in> dom (fold countOp ns Map.empty). countOf (the (fold countOp ns Map.empty op)))
           = length ns"
proof -
  from assms have t: "\<forall>n \<in> set ns. truthy (opType n)"
    by (fastforce simp: truthy_def)
  have "(\<Sum>op \<in> set (knownOps ns). countOf (the (fold countOp ns Map.empty op)))
      = (\<Sum>op \<in> set (knownOps ns). count_list (knownOps ns) op)"
    by (rule sum.cong)
       (auto simp: operatorFrequency_lookup [OF assms] set_knownOps count_knownOps countOf_def)
  also have "\<dots> = length (knownOps ns)"
    by (rule sum_count_set) simp_all
  finally show ?thesis using t by (simp add: dom_frequency [OF assms] length_knownOps)
qed

text \<open>
  On a name of \<open>Object.prototype\<close> the stored value is not a count: two operators named
  \<open>constructor\<close> leave a string, and an operator named \<open>__proto__\<close> leaves no key.
\<close>

lemma inherited_names_are_not_counted:
  "fold countOp [ctorNode, ctorNode] Map.empty ''constructor''
     = Some (Str ''function Object() { [native code] }11'')"
  "fold countOp [protoNode] Map.empty = Map.empty"
  by (simp_all add: countOp_def ctorNode_def protoNode_def objectPrototypeNames_def
      inheritedText_def plusOne_def)

section \<open>Evaluating the model on concrete inputs\<close>

lemma digitChar_numeral:
  "digitChar 0 = CHR ''0''" "digitChar 1 = CHR ''1''" "digitChar 2 = CHR ''2''"
  "digitChar 3 = CHR ''3''" "digitChar 4 = CHR ''4''" "digitChar 5 = CHR ''5''"
  "digitChar 6 = CHR ''6''" "digitChar 7 = CHR ''7''" "digitChar 8 = CHR ''8''"
  "digitChar 9 = CHR ''9''" "digitChar (Suc 0) = CHR ''1''"
  by code_simp+

lemma digitChar_Suc:
  "digitChar (Suc (Suc 0)) = CHR ''2''"
  "digitChar (Suc (Suc (Suc 0))) = CHR ''3''"
  "digitChar (Suc (Suc (Suc (Suc 0)))) = CHR ''4''"
  "digitChar (Suc (Suc (Suc (Suc (Suc 0))))) = CHR ''5''"
  "digitChar (Suc (Suc (Suc (Suc (Suc (Suc 0)))))) = CHR ''6''"
  "digitChar (Suc (Suc (Suc (Suc (Suc (Suc (Suc 0))))))) = CHR ''7''"
  by code_simp+

lemma numToString_digit: "n < 10 \<Longrightarrow> numToString n = [digitChar n]"
  by (simp add: numToString.simps)

lemmas build_eval = buildGraph_def buildState_def createOperatorNodes_def createInputNodes_def
  operatorStep_def edgeStep_def inputStep_def getId_def emptyBuilder_def outputName_def
  outputFirst_def operatorLabel_def orElse_def orOpt_def truthy_def truncLabel_def
  numToString_digit digitChar_numeral digitChar_Suc enumerate_eq_zip

section \<open>The build on the example models, and membership in its closed form\<close>

lemma scenario1_build:
  "buildGraph (Some [convNode]) =
    ([\<lparr>node_id = ''id-1'', node_type = ''input'', position_x = 50, position_y = 50, data_label = ''x''\<rparr>,
      \<lparr>node_id = ''id-2'', node_type = ''input'', position_x = 50, position_y = 150, data_label = ''w''\<rparr>,
      \<lparr>node_id = ''id-3'', node_type = ''input'', position_x = 50, position_y = 250, data_label = ''b''\<rparr>,
      \<lparr>node_id = ''id-4'', node_type = ''default'', position_x = 300, position_y = 100, data_label = ''Conv''\<rparr>],
     [\<lparr>edge_id = ''e-id-1-id-4'', source = ''id-1'', target = ''id-4'', animated = True\<rparr>,
      \<lparr>edge_id = ''e-id-2-id-4'', source = ''id-2'', target = ''id-4'', animated = True\<rparr>,
      \<lparr>edge_id = ''e-id-3-id-4'', source = ''id-3'', target = ''id-4'', animated = True\<rparr>])"
  by (simp add: build_eval convNode_def)

lemma chain_build:
  "buildGraph (Some [convNode, reluNode]) =
    ([\<lparr>node_id = ''id-1'', node_type = ''input'', position_x = 50, position_y = 50, data_label = ''x''\<rparr>,
      \<lparr>node_id = ''id-2'', node_type = ''input'', position_x = 50, position_y = 150, data_label = ''w''\<rparr>,
      \<lparr>node_id = ''id-3'', node_type = ''input'', position_x = 50, position_y = 250, data_label = ''b''\<rparr>,
      \<lparr>node_id = ''id-4'', node_type = ''input'', position_x = 50, position_y = 350, data_label = ''y''\<rparr>,
      \<lparr>node_id = ''id-4'', node_type = ''default'', position_x = 300, position_y = 100, data_label = ''Conv''\<rparr>,
      \<lparr>node_id = ''id-5'', node_type = ''default'', position_x = 500, position_y = 100, data_label = ''Relu''\<rparr>],
     [\<lparr>edge_id = ''e-id-1-id-4'', source = ''id-1'', target = ''id-4'', animated = True\<rparr>,
      \<lparr>edge_id = ''e-id-2-id-4'', source = ''id-2'', target = ''id-4'', animated = True\<rparr>,
      \<lparr>edge_id = ''e-id-3-id-4'', source = ''id-3'', target = ''id-4'', animated = True\<rparr>,
      \<lparr>edge_id = ''e-id-4-id-5'', source = ''id-4'', target = ''id-5'', animated = True\<rparr>])"
  by (simp add: build_eval convNode_def reluNode_def)

lemma split_build:
  "buildGraph (Some [splitNode, useNode]) =
    ([\<lparr>node_id = ''id-1'', node_type = ''input'', position_x = 50, position_y = 50, data_label = ''s''\<rparr>,
      \<lparr>node_id = ''id-2'', node_type = ''input'', position_x = 50, position_y = 150, data_label = ''t''\<rparr>,
      \<lparr>node_id = ''id-3'', node_type = ''default'', position_x = 300, position_y = 100, data_label = ''Split''\<rparr>,
      \<lparr>node_id = ''id-4'', node_type = ''default'', position_x = 500, position_y = 100, data_label = ''Relu''\<rparr>],
     [\<lparr>edge_id = ''e-id-1-id-3'', source = ''id-1'', target = ''id-3'', animated = True\<rparr>,
      \<lparr>edge_id = ''e-id-2-id-4'', source = ''id-2'', target = ''id-4'', animated = True\<rparr>])"
  by (simp add: build_eval splitNode_def useNode_def)

lemma filter_input_specNodes:
  "filter (\<lambda>n. node_type n = ''input'') (specNodes ns) =
     map (\<lambda>(k, t). mkInputNode (tensorId ns t) k t) (enumerate 0 (addNew [] (allInputs ns)))"
proof -
  have 1: "filter (\<lambda>n. node_type n = ''input'') (map (\<lambda>(k, t). mkInputNode (f t) k t) xs)
      = map (\<lambda>(k, t). mkInputNode (f t) k t) xs" for f and xs :: "(nat \<times> string) list"
    by (induction xs) (auto simp: mkInputNode_def)
  have 2: "filter (\<lambda>n. node_type n = ''input'') (map (\<lambda>(i, n). mkOperatorNode (f n i) i n) xs) = []"
    for f and xs :: "(nat \<times> rawNode) list"
    by (induction xs) (auto simp: mkOperatorNode_def)
  show ?thesis
    unfolding specNodes_def filter_append 1 2 by simp
qed



lemma in_set_specEdges:
  assumes "e \<in> set (specEdges ns)"
  obtains i n t where "(i, n) \<in> set (enumerate 0 ns)" "t \<in> set (inputsOf n)"
    "e = mkEdge (tensorId ns t) (tensorId ns (outputName n i))"
  using assms unfolding specEdges_def by auto

lemma input_node_in_specNodes:
  assumes "t \<in> set (allInputs ns)"
  shows "tensorId ns t \<in> node_id ` set (specNodes ns)"
proof -
  from assms have "t \<in> set (addNew [] (allInputs ns))" by (simp add: set_addNew)
  then obtain k where "k < length (addNew [] (allInputs ns))" "addNew [] (allInputs ns) ! k = t"
    by (auto simp: in_set_conv_nth)
  then have "(k, t) \<in> set (enumerate 0 (addNew [] (allInputs ns)))"
    by (simp add: in_set_enumerate_eq)
  then have "mkInputNode (tensorId ns t) k t \<in> set (specNodes ns)"
    unfolding specNodes_def by force
  moreover have "node_id (mkInputNode (tensorId ns t) k t) = tensorId ns t"
    by (simp add: mkInputNode_def)
  ultimately show ?thesis by (metis imageI)
qed

lemma operator_node_in_specNodes:
  assumes "(i, n) \<in> set (enumerate 0 ns)"
  shows "tensorId ns (outputName n i) \<in> node_id ` set (specNodes ns)"
proof -
  from assms have "mkOperatorNode (tensorId ns (outputName n i)) i n \<in> set (specNodes ns)"
    unfolding specNodes_def by force
  moreover have "node_id (mkOperatorNode (tensorId ns (outputName n i)) i n)
      = tensorId ns (outputName n i)"
    by (simp add: mkOperatorNode_def)
  ultimately show ?thesis by (metis imageI)
qed

section \<open>Positions in the closed form, and the layout graph on examples\<close>

lemma outputName_canonical: "outputName n i = canonicalName n i"
  by (auto simp: outputName_def canonicalName_def orElse_def orOpt_def truthy_def
      split: option.splits)

lemma operatorLabel_display: "operatorLabel n i = displayLabel n i"
  by (auto simp: operatorLabel_def displayLabel_def orElse_def orOpt_def truthy_def
      split: option.splits)

lemma length_inputs_specNodes:
  "length (specNodes ns) = length (addNew [] (allInputs ns)) + length ns"
  by (simp add: specNodes_def)

lemma specNodes_input_nth:
  assumes "k < length (addNew [] (allInputs ns))"
  shows "specNodes ns ! k =
    mkInputNode (tensorId ns (addNew [] (allInputs ns) ! k)) k (addNew [] (allInputs ns) ! k)"
  using assms by (simp add: specNodes_def nth_append nth_enumerate_eq)

lemma specNodes_operator_nth:
  assumes "i < length ns"
  shows "specNodes ns ! (length (addNew [] (allInputs ns)) + i) =
    mkOperatorNode (tensorId ns (outputName (ns ! i) i)) i (ns ! i)"
  using assms by (simp add: specNodes_def nth_append nth_enumerate_eq)

lemma nameToId_buildState:
  assumes "t \<in> set (allInputs ns) \<union> set (outputNames 0 ns)"
  shows "nameToId (buildState ns) t = Some (tensorId ns t)"
  using buildState_alloc [of ns] assms
  by (simp add: allocInv_def idMap_def tensorId_def set_requestOrder)

lemma outputName_in_outputNames: "i < length ns \<Longrightarrow> outputName (ns ! i) i \<in> set (outputNames 0 ns)"
  by (rule in_outputNames) (simp add: in_set_enumerate_eq)

lemma layoutGraph_Inr:
  assumes "layoutGraph d = Inr (children, es)"
  shows "children = map inputChild (graph_inputs d) @ map operatorChild (graph_nodes d) @
           map outputChild (graph_outputs d)"
    and "es = concat (map consumerEdges (graph_nodes d)) @
           concat (map (producerEdges (graph_nodes d)) (graph_outputs d))"
  using assms by (auto simp: layoutGraph_def Let_def split: if_splits)


lemma fc_build:
  "buildGraph (Some [fcNode, bareNode]) =
    ([\<lparr>node_id = ''id-1'', node_type = ''input'', position_x = 50, position_y = 50, data_label = ''x''\<rparr>,
      \<lparr>node_id = ''id-2'', node_type = ''default'', position_x = 300, position_y = 100, data_label = ''Gemm''\<rparr>,
      \<lparr>node_id = ''id-3'', node_type = ''default'', position_x = 500, position_y = 100, data_label = ''Node 1''\<rparr>],
     [\<lparr>edge_id = ''e-id-1-id-2'', source = ''id-1'', target = ''id-2'', animated = True\<rparr>])"
  by (simp add: build_eval fcNode_def bareNode_def)

lemmas layout_eval = layoutGraph_def operatorChild_def inputChild_def outputChild_def
  consumerEdges_def producerEdges_def operatorLines_def getConvDetails_def findInput_def
  getAttrValue_def outputFirst_def inputsOf_def render_def orElse_def
  NODE_WIDTH_def NODE_HEIGHT_def INPUT_NODE_WIDTH_def INPUT_NODE_HEIGHT_def
  OUTPUT_NODE_WIDTH_def OUTPUT_NODE_HEIGHT_def

lemma fc_layout:
  "layoutGraph \<lparr>graph_inputs = [], graph_outputs = [], graph_nodes = [fcNode]\<rparr> =
     Inr ([\<lparr>elk_id = None, width = 200, height = 120, labels = [None], nodeType = None,
            originalNode = Some fcNode\<rparr>],
          [\<lparr>elk_edge_id = ''x->undefined'', sources = [Some ''x''], targets = [None]\<rparr>])"
  by (simp add: layout_eval) (simp add: fcNode_def)


lemma fc_bare_layout:
  "layoutGraph \<lparr>graph_inputs = [], graph_outputs = [], graph_nodes = [fcNode, bareNode]\<rparr> =
     Inr ([operatorChild fcNode, operatorChild bareNode], consumerEdges fcNode @ consumerEdges bareNode)"
  by (simp add: layoutGraph_def fcNode_def bareNode_def)

section \<open>The order of the edges\<close>

lemma map_source_specEdges: "map source (specEdges ns) = map (tensorId ns) (allInputs ns)"
proof -
  have "map source (concat (map (\<lambda>(i, n). map (\<lambda>t. mkEdge (f t) (g n i)) (inputsOf n)) xs))
      = map f (concat (map (\<lambda>(i, n). inputsOf n) xs))"
    for f g and xs :: "(nat \<times> rawNode) list"
    by (induction xs) (auto simp: mkEdge_def)
  moreover have "concat (map (\<lambda>(i, n). inputsOf n) (enumerate s ns)) = allInputs ns" for s
    by (induction ns arbitrary: s) (simp_all add: allInputs_def)
  ultimately show ?thesis by (simp add: specEdges_def)
qed

lemma map_target_specEdges:
  "map target (specEdges ns) =
     concat (map (\<lambda>(i, n). replicate (length (inputsOf n)) (tensorId ns (outputName n i)))
       (enumerate 0 ns))"
proof -
  have "map target (concat (map (\<lambda>(i, n). map (\<lambda>t. mkEdge (f t) (g n i)) (inputsOf n)) xs))
      = concat (map (\<lambda>(i, n). replicate (length (inputsOf n)) (g n i)) xs)"
    for f g and xs :: "(nat \<times> rawNode) list"
    by (induction xs) (auto simp: mkEdge_def map_replicate_const comp_def)
  then show ?thesis by (simp add: specEdges_def)
qed

lemma sources_consumerEdges:
  "map sources (concat (map consumerEdges ns)) = map (\<lambda>t. [Some t]) (allInputs ns)"
  by (induction ns) (simp_all add: allInputs_def consumerEdges_def comp_def)



lemma scenario_layout:
  "layoutGraph scenarioData =
     Inr ([inputChild \<lparr>io_name = Some ''x'', io_type = ''unknown''\<rparr>, operatorChild convNode,
           outputChild \<lparr>io_name = Some ''y'', io_type = ''unknown''\<rparr>],
          [\<lparr>elk_edge_id = ''x->y'', sources = [Some ''x''], targets = [Some ''y'']\<rparr>,
           \<lparr>elk_edge_id = ''w->y'', sources = [Some ''w''], targets = [Some ''y'']\<rparr>,
           \<lparr>elk_edge_id = ''b->y'', sources = [Some ''b''], targets = [Some ''y'']\<rparr>,
           \<lparr>elk_edge_id = ''y->y'', sources = [Some ''y''], targets = [Some ''y'']\<rparr>])"
  by (simp add: layoutGraph_def scenarioData_def consumerEdges_def producerEdges_def
      inputsOf_def outputFirst_def render_def convNode_def)

section \<open>Label lines\<close>

lemma intToString_nonempty: "intToString i \<noteq> []"
  by (simp add: intToString_def numToString_nonempty)

lemma join_nonempty: "x \<noteq> [] \<Longrightarrow> join sep (x # xs) \<noteq> []"
  by (cases xs) simp_all

lemma getAttrValue_attrText:
  "getAttrValue (case attribute n of None \<Rightarrow> [] | Some as \<Rightarrow> as) key = attrText n key"
  by (auto simp: getAttrValue_def attrText_def orEmpty_def Let_def intToString_nonempty
      join_nonempty split: option.splits list.splits)

lemma attrText_absent:
  "\<forall>a \<in> set (orEmpty (attribute n)). attr_name a \<noteq> Some key \<Longrightarrow> attrText n key = enDash"
proof -
  assume "\<forall>a \<in> set (orEmpty (attribute n)). attr_name a \<noteq> Some key"
  then have "find (\<lambda>a. attr_name a = Some key) (orEmpty (attribute n)) = None"
    by (simp add: find_None_iff)
  then show ?thesis by (simp add: attrText_def)
qed

lemma operatorLines_spec:
  "operatorLines n =
     (if opType n = Some ''Conv''
      then [Some ''Conv'',
            Some (''Weight: '' @ findInput n ''weight'' ''W''),
            Some (''Bias: '' @ findInput n ''bias'' ''B''),
            Some (''Dilations: '' @ attrText n ''dilations''),
            Some (''Kernel: '' @ attrText n ''kernel_shape''),
            Some (''Padding: '' @ attrText n ''pads''),
            Some (''Strides: '' @ attrText n ''strides'')]
      else [opType n])"
  by (simp add: operatorLines_def getConvDetails_def Let_def getAttrValue_attrText)


lemma in_layout_children:
  assumes "layoutGraph d = Inr (children, es)"
  shows "n \<in> set (graph_nodes d) \<Longrightarrow> operatorChild n \<in> set children"
    and "io \<in> set (graph_inputs d) \<Longrightarrow> inputChild io \<in> set children"
    and "io \<in> set (graph_outputs d) \<Longrightarrow> outputChild io \<in> set children"
  using layoutGraph_Inr(1) [OF assms] by auto

lemma input_label_truncated:
  assumes "k < length (addNew [] (allInputs ns))"
  shows "node_type (fst (buildGraph (Some ns)) ! k) = ''input''"
    and "data_label (fst (buildGraph (Some ns)) ! k) =
      (let t = addNew [] (allInputs ns) ! k in if 20 < length t then take 20 t @ ''...'' else t)"
  using specNodes_input_nth [OF assms]
  by (simp_all add: buildGraph_closed_form mkInputNode_def truncLabel_def)


lemma conv_layout:
  "layoutGraph convData =
     Inr ([inputChild \<lparr>io_name = Some ''data'', io_type = ''unknown''\<rparr>,
           operatorChild convWithAttrs], consumerEdges convWithAttrs)"
  by (simp add: layoutGraph_def convData_def convWithAttrs_def producerEdges_def)

lemma conv_lines:
  "findInput convWithAttrs ''weight'' ''W'' = ''conv1.weight''"
  "findInput convWithAttrs ''bias'' ''B'' = ''conv1.bias''"
  "attrText convWithAttrs ''dilations'' = enDash"
  "attrText convWithAttrs ''kernel_shape'' = ''3'' @ timesSign @ ''3''"
  "attrText convWithAttrs ''pads'' = enDash"
  "attrText convWithAttrs ''strides'' = ''1'' @ timesSign @ ''1''"
  by (simp_all add: findInput_def attrText_def convWithAttrs_def orElse_def orEmpty_def
      intToString_def numToString_digit digitChar_numeral)

section \<open>Sequences of id requests\<close>

lemma addNew_prefix: "\<exists>ys. addNew L xs = L @ ys"
proof (induction xs arbitrary: L)
  case Nil
  then show ?case by simp
next
  case (Cons x xs)
  from Cons.IH [of "if x \<in> set L then L else L @ [x]"] show ?case
    by (auto split: if_splits)
qed

lemma idMap_addNew: "t \<in> set L \<Longrightarrow> idMap (addNew L xs) t = idMap L t"
proof -
  assume t: "t \<in> set L"
  obtain ys where "addNew L xs = L @ ys" using addNew_prefix by blast
  with t show ?thesis by (simp add: idMap_def indexOf_append_in)
qed

lemma getIds_alloc:
  "allocInv L b \<Longrightarrow> getIds nms b = (is, b') \<Longrightarrow>
     allocInv (addNew L nms) b' \<and> map Some is = map (idMap (addNew L nms)) nms"
proof (induction nms arbitrary: L b "is" b')
  case Nil
  then show ?case by simp
next
  case (Cons nm nms)
  obtain i b1 where g: "getId nm b = (i, b1)" by (cases "getId nm b")
  obtain js b2 where gs: "getIds nms b1 = (js, b2)" by (cases "getIds nms b1")
  from Cons.prems(2) g gs have eq: "is = i # js" "b' = b2" by simp_all
  let ?L1 = "addNew L [nm]"
  from getId_alloc [OF Cons.prems(1), of nm] g have a1: "allocInv ?L1 b1" by simp
  from Cons.IH [OF a1 gs] have ih: "allocInv (addNew ?L1 nms) b2"
    "map Some js = map (idMap (addNew ?L1 nms)) nms" by simp_all
  have L: "addNew L (nm # nms) = addNew ?L1 nms" by simp
  from getId_fields(5) [OF g] a1 have "idMap ?L1 nm = Some i" by (simp add: allocInv_def)
  moreover have "nm \<in> set ?L1" by simp
  ultimately have "idMap (addNew ?L1 nms) nm = Some i" by (simp add: idMap_addNew)
  with ih show ?case unfolding eq L by simp
qed

lemma getIds_closed_form:
  "fst (getIds nms emptyBuilder) =
     map (\<lambda>t. ''id-'' @ numToString (Suc (indexOf (addNew [] nms) t))) nms"
proof -
  obtain js b' where g: "getIds nms emptyBuilder = (js, b')"
    by (cases "getIds nms emptyBuilder")
  from getIds_alloc [OF allocInv_empty g]
  have "map Some js = map (idMap (addNew [] nms)) nms" by simp
  also have "\<dots> = map (\<lambda>t. Some (''id-'' @ numToString (Suc (indexOf (addNew [] nms) t)))) nms"
    by (rule map_cong) (simp_all add: idMap_def set_addNew)
  also have "\<dots> = map Some (map (\<lambda>t. ''id-'' @ numToString (Suc (indexOf (addNew [] nms) t))) nms)"
    by simp
  finally have "js = map (\<lambda>t. ''id-'' @ numToString (Suc (indexOf (addNew [] nms) t))) nms"
    using inj_map_eq_map [of Some] by (simp del: map_map)
  with g show ?thesis by simp
qed

lemma getIds_same_id_iff:
  assumes "i < length nms" and "j < length nms"
  shows "(fst (getIds nms emptyBuilder) ! i = fst (getIds nms emptyBuilder) ! j)
           = (nms ! i = nms ! j)"
proof -
  obtain js b' where g: "getIds nms emptyBuilder = (js, b')"
    by (cases "getIds nms emptyBuilder")
  from getIds_spec [OF idsInv_empty g] assms
  have inv: "idsInv b'" and i: "nameToId b' (nms ! i) = Some (js ! i)"
    and j: "nameToId b' (nms ! j) = Some (js ! j)" by simp_all
  show ?thesis
  proof
    assume "fst (getIds nms emptyBuilder) ! i = fst (getIds nms emptyBuilder) ! j"
    with g have "js ! i = js ! j" by simp
    with i j idsInv_inj [OF inv] show "nms ! i = nms ! j" by metis
  next
    assume "nms ! i = nms ! j"
    with i j have "js ! i = js ! j" by simp
    with g show "fst (getIds nms emptyBuilder) ! i = fst (getIds nms emptyBuilder) ! j" by simp
  qed
qed

section \<open>Id assignment\<close>

text \<open>
  Claim C4. Requesting ids for a sequence of tensor names from a fresh builder, two
  requests return the same id exactly when they ask for the same name: the assignment
  is idempotent (also with other requests in between) and injective. The \<open>k\<close>-th
  distinct name, in the order of first request, gets \<open>id-k\<close>, and a request never
  lowers the counter.
\<close>

theorem getId_idempotent_injective:
  assumes "i < length nms" and "j < length nms"
  shows "((fst (getIds nms emptyBuilder) ! i = fst (getIds nms emptyBuilder) ! j)
            = (nms ! i = nms ! j)) \<and>
         fst (getIds nms emptyBuilder) =
           map (\<lambda>t. ''id-'' @ numToString (Suc (indexOf (addNew [] nms) t))) nms \<and>
         uid b \<le> uid (snd (getId nm b))"
proof (intro conjI)
  show "(fst (getIds nms emptyBuilder) ! i = fst (getIds nms emptyBuilder) ! j)
            = (nms ! i = nms ! j)"
    using assms by (rule getIds_same_id_iff)
  show "fst (getIds nms emptyBuilder) =
           map (\<lambda>t. ''id-'' @ numToString (Suc (indexOf (addNew [] nms) t))) nms"
    by (rule getIds_closed_form)
  show "uid b \<le> uid (snd (getId nm b))"
    by (cases "getId nm b") (simp add: getId_fields(4))
qed

theorem getId_idempotent_injective_witness:
  "(0 :: nat) < length [''x'', ''y'', ''x''] \<and> (2 :: nat) < length [''x'', ''y'', ''x''] \<and>
   fst (getIds [''x'', ''y'', ''x''] emptyBuilder) ! 0
     = fst (getIds [''x'', ''y'', ''x''] emptyBuilder) ! 2 \<and>
   fst (getIds [''x'', ''y'', ''x''] emptyBuilder) ! 0
     \<noteq> fst (getIds [''x'', ''y'', ''x''] emptyBuilder) ! 1 \<and>
   fst (getIds [''x'', ''y'', ''x''] emptyBuilder) = [''id-1'', ''id-2'', ''id-1'']"
proof -
  have h: "(0 :: nat) < length [''x'', ''y'', ''x'']" "(1 :: nat) < length [''x'', ''y'', ''x'']"
    "(2 :: nat) < length [''x'', ''y'', ''x'']" by simp_all
  from getId_idempotent_injective [OF h(1) h(3)]
  have 1: "fst (getIds [''x'', ''y'', ''x''] emptyBuilder) ! 0
     = fst (getIds [''x'', ''y'', ''x''] emptyBuilder) ! 2"
    and 3: "fst (getIds [''x'', ''y'', ''x''] emptyBuilder) =
      map (\<lambda>t. ''id-'' @ numToString (Suc (indexOf (addNew [] [''x'', ''y'', ''x'']) t)))
        [''x'', ''y'', ''x'']"
    by (simp_all del: getIds.simps)
  from getId_idempotent_injective [OF h(1) h(2), THEN conjunct1]
  have 2: "fst (getIds [''x'', ''y'', ''x''] emptyBuilder) ! 0
     \<noteq> fst (getIds [''x'', ''y'', ''x''] emptyBuilder) ! 1"
    by (simp del: getIds.simps)
  have "map (\<lambda>t. ''id-'' @ numToString (Suc (indexOf (addNew [] [''x'', ''y'', ''x'']) t)))
        [''x'', ''y'', ''x''] = [''id-1'', ''id-2'', ''id-1'']"
    by (simp add: numToString_digit digitChar_numeral digitChar_Suc)
  with 1 2 3 h show ?thesis by (simp del: getIds.simps)
qed

section \<open>The parser's result\<close>

text \<open>
  Claim C1 says that a decode that throws gives the failure shape and that every
  successful decode gives \<open>parsingMethod = "runtime-load"\<close>. The second half fails on
  a file that decodes to a model object without a graph (an empty file does): reading
  \<open>model.graph.input\<close> throws inside the \<open>try\<close> block, and the function answers with
  the failure shape and \<open>parsingMethod = "fallback"\<close> although decoding succeeded.
\<close>

theorem parse_decoded_without_graph_falls_back:
  "parseONNXModelComplete f (Inr \<lparr>producerName = pn, producerVersion = pv, graph = None\<rparr>) =
     \<lparr>result_file = None, result_model = None, result_graph = None,
      result_analysis = None, result_error = Some (message nullGraphError),
      parsingMethod = ''fallback''\<rparr>"
  by (simp add: parseONNXModelComplete_def tryBlock_def)

text \<open>
  Claim C6. For a decoded model with a graph, \<open>modelComplexity\<close> is \<open>High\<close> exactly
  when the number of operator nodes exceeds 1000, \<open>Medium\<close> exactly when it exceeds 100
  and is at most 1000, and \<open>Low\<close> exactly when it is at most 100. The witness is a
  model of 1500 operators, classified \<open>High\<close>.
\<close>

theorem modelComplexity_thresholds:
  assumes "graph m = Some g"
  shows "\<exists>a. result_analysis (parseONNXModelComplete f (Inr m)) = Some a \<and>
           totalNodes a = length (orEmpty (node g)) \<and>
           (modelComplexity a = ''High'') = (1000 < totalNodes a) \<and>
           (modelComplexity a = ''Medium'') = (100 < totalNodes a \<and> totalNodes a \<le> 1000) \<and>
           (modelComplexity a = ''Low'') = (totalNodes a \<le> 100)"
  by (simp add: parse_success [OF assms] complexityOf_cases)

theorem modelComplexity_thresholds_witness:
  "graph (emptyModel\<lparr>graph := Some bigGraph\<rparr>) = Some bigGraph \<and>
   (\<exists>a. result_analysis (parseONNXModelComplete someFile (Inr (emptyModel\<lparr>graph := Some bigGraph\<rparr>))) = Some a \<and>
        totalNodes a = 1500 \<and> modelComplexity a = ''High'')"
proof -
  have h: "graph (emptyModel\<lparr>graph := Some bigGraph\<rparr>) = Some bigGraph" by simp
  from modelComplexity_thresholds [OF h, of someFile]
  obtain a where a: "result_analysis (parseONNXModelComplete someFile (Inr (emptyModel\<lparr>graph := Some bigGraph\<rparr>))) = Some a"
    "totalNodes a = length (orEmpty (node bigGraph))"
    "(modelComplexity a = ''High'') = (1000 < totalNodes a)" by blast
  have "length (orEmpty (node bigGraph)) = 1500" by (simp add: bigGraph_def orEmpty_def)
  with a h show ?thesis by simp
qed

text \<open>
  Claim C7, as amended. For a decoded model with a graph: \<open>operatorFrequency\<close> maps each
  non-empty \<open>opType\<close> string of the node list that is not a property name of
  \<open>Object.prototype\<close> to its number of occurrences, and holds no such key that does
  not occur; when every node has such an \<open>opType\<close>, every stored value is a number
  and the values sum to \<open>totalNodes\<close>; \<open>totalInputs\<close>, \<open>totalOutputs\<close> and
  \<open>totalInitializers\<close> are the lengths of the graph's input, output and initializer
  lists; and an empty node list gives \<open>totalNodes = 0\<close>, an empty
  \<open>operatorFrequency\<close> and \<open>modelComplexity = "Low"\<close>.
\<close>

theorem analysis_counts_and_histogram:
  assumes "graph m = Some g"
  shows "\<exists>a. result_analysis (parseONNXModelComplete f (Inr m)) = Some a \<and>
     (\<forall>op. op \<notin> set objectPrototypeNames \<longrightarrow>
        operatorFrequency a op =
          (if op \<noteq> [] \<and> 0 < occurrences op (orEmpty (node g))
           then Some (Num (occurrences op (orEmpty (node g)))) else None)) \<and>
     ((\<forall>n \<in> set (orEmpty (node g)).
          \<exists>op. opType n = Some op \<and> op \<noteq> [] \<and> op \<notin> set objectPrototypeNames) \<longrightarrow>
        (\<forall>op v. operatorFrequency a op = Some v \<longrightarrow> (\<exists>c. v = Num c)) \<and>
        (\<Sum>op \<in> dom (operatorFrequency a). countOf (the (operatorFrequency a op)))
          = totalNodes a) \<and>
     totalNodes a = length (orEmpty (node g)) \<and>
     totalInputs a = lengthOr0 (graph_input g) \<and>
     totalOutputs a = lengthOr0 (graph_output g) \<and>
     totalInitializers a = lengthOr0 (initializer g) \<and>
     (orEmpty (node g) = [] \<longrightarrow>
        totalNodes a = 0 \<and> operatorFrequency a = Map.empty \<and> modelComplexity a = ''Low'')"
proof -
  let ?ns = "orEmpty (node g)"
  let ?freq = "fold countOp ?ns Map.empty"
  have 1: "\<forall>op. op \<notin> set objectPrototypeNames \<longrightarrow>
      ?freq op = (if op \<noteq> [] \<and> 0 < occurrences op ?ns
                  then Some (Num (occurrences op ?ns)) else None)"
    by (simp add: operatorFrequency_plain)
  have 2: "(\<forall>op v. ?freq op = Some v \<longrightarrow> (\<exists>c. v = Num c)) \<and>
      (\<Sum>op \<in> dom ?freq. countOf (the (?freq op))) = length ?ns"
    if h: "\<forall>n \<in> set ?ns. \<exists>op. opType n = Some op \<and> op \<noteq> [] \<and> op \<notin> set objectPrototypeNames"
    using frequency_values_are_numbers [OF h] frequency_sum [OF h] by blast
  have 3: "?ns = [] \<longrightarrow> ?freq = Map.empty" by simp
  from 1 2 3 show ?thesis
    by (simp add: parse_success [OF assms] complexityOf_def)
qed

theorem analysis_counts_and_histogram_witness:
  "graph (emptyModel\<lparr>graph := Some smallGraph\<rparr>) = Some smallGraph \<and>
   ''Relu'' \<notin> set objectPrototypeNames \<and> ''Conv'' \<notin> set objectPrototypeNames \<and>
   ''Gemm'' \<notin> set objectPrototypeNames \<and>
   (\<exists>a. result_analysis (parseONNXModelComplete someFile (Inr (emptyModel\<lparr>graph := Some smallGraph\<rparr>))) = Some a \<and>
        operatorFrequency a ''Relu'' = Some (Num 2) \<and>
        operatorFrequency a ''Conv'' = Some (Num 1) \<and>
        operatorFrequency a ''Gemm'' = None \<and>
        (\<Sum>op \<in> dom (operatorFrequency a). countOf (the (operatorFrequency a op))) = 3 \<and>
        totalNodes a = 3) \<and>
   graph (emptyModel\<lparr>graph := Some noNodesGraph\<rparr>) = Some noNodesGraph \<and>
   (\<exists>a. result_analysis (parseONNXModelComplete someFile (Inr (emptyModel\<lparr>graph := Some noNodesGraph\<rparr>))) = Some a \<and>
        totalNodes a = 0 \<and> totalInputs a = 0 \<and> totalOutputs a = 0 \<and> totalInitializers a = 0 \<and>
        operatorFrequency a = Map.empty \<and> modelComplexity a = ''Low'')"
proof -
  have h1: "graph (emptyModel\<lparr>graph := Some smallGraph\<rparr>) = Some smallGraph" by simp
  have h2: "graph (emptyModel\<lparr>graph := Some noNodesGraph\<rparr>) = Some noNodesGraph" by simp
  have p: "''Relu'' \<notin> set objectPrototypeNames" "''Conv'' \<notin> set objectPrototypeNames"
    "''Gemm'' \<notin> set objectPrototypeNames"
    by (simp_all add: objectPrototypeNames_def)
  have n1: "orEmpty (node smallGraph) = [reluNode, convNode, reluNode]"
    by (simp add: smallGraph_def orEmpty_def)
  have t1: "\<forall>n \<in> set (orEmpty (node smallGraph)).
      \<exists>op. opType n = Some op \<and> op \<noteq> [] \<and> op \<notin> set objectPrototypeNames"
    using p by (simp add: n1 reluNode_def convNode_def)
  have o1: "occurrences ''Relu'' [reluNode, convNode, reluNode] = 2"
    "occurrences ''Conv'' [reluNode, convNode, reluNode] = 1"
    "occurrences ''Gemm'' [reluNode, convNode, reluNode] = 0"
    by (simp_all add: occurrences_def reluNode_def convNode_def)
  have n2: "orEmpty (node noNodesGraph) = []" "lengthOr0 (graph_input noNodesGraph) = 0"
    "lengthOr0 (graph_output noNodesGraph) = 0" "lengthOr0 (initializer noNodesGraph) = 0"
    by (simp_all add: noNodesGraph_def orEmpty_def lengthOr0_def)
  from analysis_counts_and_histogram [OF h1, of someFile]
  obtain a where a: "result_analysis (parseONNXModelComplete someFile
        (Inr (emptyModel\<lparr>graph := Some smallGraph\<rparr>))) = Some a"
    and freq: "\<And>op. op \<notin> set objectPrototypeNames \<Longrightarrow> operatorFrequency a op =
        (if op \<noteq> [] \<and> 0 < occurrences op (orEmpty (node smallGraph))
         then Some (Num (occurrences op (orEmpty (node smallGraph)))) else None)"
    and total: "(\<forall>n \<in> set (orEmpty (node smallGraph)).
          \<exists>op. opType n = Some op \<and> op \<noteq> [] \<and> op \<notin> set objectPrototypeNames) \<longrightarrow>
        (\<forall>op v. operatorFrequency a op = Some v \<longrightarrow> (\<exists>c. v = Num c)) \<and>
        (\<Sum>op \<in> dom (operatorFrequency a). countOf (the (operatorFrequency a op)))
          = totalNodes a"
    and tn: "totalNodes a = length (orEmpty (node smallGraph))"
    by blast
  from total t1 tn
  have "(\<Sum>op \<in> dom (operatorFrequency a). countOf (the (operatorFrequency a op))) = 3"
    by (simp add: n1)
  moreover have "operatorFrequency a ''Relu'' = Some (Num 2)"
    "operatorFrequency a ''Conv'' = Some (Num 1)" "operatorFrequency a ''Gemm'' = None"
    by (simp_all add: freq [OF p(1)] freq [OF p(2)] freq [OF p(3)] n1 o1)
  moreover have "totalNodes a = 3" by (simp add: tn n1)
  ultimately
  have 1: "\<exists>a. result_analysis (parseONNXModelComplete someFile (Inr (emptyModel\<lparr>graph := Some smallGraph\<rparr>))) = Some a \<and>
        operatorFrequency a ''Relu'' = Some (Num 2) \<and>
        operatorFrequency a ''Conv'' = Some (Num 1) \<and>
        operatorFrequency a ''Gemm'' = None \<and>
        (\<Sum>op \<in> dom (operatorFrequency a). countOf (the (operatorFrequency a op))) = 3 \<and>
        totalNodes a = 3"
    using a by blast
  from analysis_counts_and_histogram [OF h2, of someFile]
  have 2: "\<exists>a. result_analysis (parseONNXModelComplete someFile (Inr (emptyModel\<lparr>graph := Some noNodesGraph\<rparr>))) = Some a \<and>
        totalNodes a = 0 \<and> totalInputs a = 0 \<and> totalOutputs a = 0 \<and> totalInitializers a = 0 \<and>
        operatorFrequency a = Map.empty \<and> modelComplexity a = ''Low''"
    unfolding n2 by (elim exE conjE) auto
  from h1 h2 p 1 2 show ?thesis by blast
qed

text \<open>
  The claim as stated also sets the other counts to zero for every empty node list:
  a graph with no nodes and one declared input has \<open>totalInputs = 1\<close>.
\<close>

theorem empty_node_list_counts_counterexample:
  "node inputOnlyGraph = Some [] \<and>
   map_option totalInputs
     (result_analysis (parseONNXModelComplete someFile (Inr (emptyModel\<lparr>graph := Some inputOnlyGraph\<rparr>))))
     = Some 1"
  by (simp add: parse_success [of _ inputOnlyGraph]) (simp add: inputOnlyGraph_def lengthOr0_def)

section \<open>The nodes and edges of the build\<close>

text \<open>
  Claim C2, as amended. The input nodes of the built graph are exactly one node per
  distinct tensor name consumed by some operator, in the order of first consumption,
  whether or not an operator produces that tensor. For the model of scenario 1 the
  graph has the three input nodes \<open>x\<close>, \<open>w\<close>, \<open>b\<close>, one operator node and the
  three edges from them to the operator.
\<close>

theorem input_nodes_are_consumed_tensors:
  "filter (\<lambda>n. node_type n = ''input'') (fst (buildGraph (Some ns))) =
     map (\<lambda>(k, t). mkInputNode (tensorId ns t) k t) (enumerate 0 (addNew [] (allInputs ns))) \<and>
   set (addNew [] (allInputs ns)) = set (allInputs ns) \<and>
   distinct (addNew [] (allInputs ns)) \<and>
   buildGraph (Some [convNode]) =
    ([\<lparr>node_id = ''id-1'', node_type = ''input'', position_x = 50, position_y = 50, data_label = ''x''\<rparr>,
      \<lparr>node_id = ''id-2'', node_type = ''input'', position_x = 50, position_y = 150, data_label = ''w''\<rparr>,
      \<lparr>node_id = ''id-3'', node_type = ''input'', position_x = 50, position_y = 250, data_label = ''b''\<rparr>,
      \<lparr>node_id = ''id-4'', node_type = ''default'', position_x = 300, position_y = 100, data_label = ''Conv''\<rparr>],
     [\<lparr>edge_id = ''e-id-1-id-4'', source = ''id-1'', target = ''id-4'', animated = True\<rparr>,
      \<lparr>edge_id = ''e-id-2-id-4'', source = ''id-2'', target = ''id-4'', animated = True\<rparr>,
      \<lparr>edge_id = ''e-id-3-id-4'', source = ''id-3'', target = ''id-4'', animated = True\<rparr>])"
  using scenario1_build
  by (simp add: buildGraph_closed_form filter_input_specNodes set_addNew distinct_addNew)

text \<open>
  The claim as stated fails on a chain: \<open>y\<close> is produced by the first operator and
  consumed by the second, and pass 1 creates an input node for it.
\<close>

theorem input_node_for_produced_tensor_counterexample:
  "fst (buildGraph (Some [convNode, reluNode])) ! 3 =
     \<lparr>node_id = ''id-4'', node_type = ''input'', position_x = 50, position_y = 350,
      data_label = ''y''\<rparr> \<and>
   fst (buildGraph (Some [convNode, reluNode])) ! 4 =
     \<lparr>node_id = ''id-4'', node_type = ''default'', position_x = 300, position_y = 100,
      data_label = ''Conv''\<rparr> \<and>
   input reluNode = Some [''y''] \<and> output_prop convNode = Some [''y'']"
  by (simp add: chain_build) (simp add: convNode_def reluNode_def)

text \<open>
  Claim C3. Every edge of the built graph (of the sample graph too) has its source id
  and its target id among the ids of the built nodes.
\<close>

theorem edges_have_no_dangling_endpoints:
  assumes "e \<in> set (snd (buildGraph g))"
  shows "source e \<in> node_id ` set (fst (buildGraph g)) \<and>
         target e \<in> node_id ` set (fst (buildGraph g))"
proof (cases g)
  case None
  with assms show ?thesis
    by (auto simp: buildGraph_def sampleNodes_def sampleEdges_def)
next
  case (Some ns)
  with assms have "e \<in> set (specEdges ns)" by (simp add: buildGraph_closed_form)
  then obtain i n t where in': "(i, n) \<in> set (enumerate 0 ns)" and t: "t \<in> set (inputsOf n)"
    and e: "e = mkEdge (tensorId ns t) (tensorId ns (outputName n i))"
    by (rule in_set_specEdges)
  from in_allInputs [OF in' t] have "tensorId ns t \<in> node_id ` set (specNodes ns)"
    by (rule input_node_in_specNodes)
  moreover from in' have "tensorId ns (outputName n i) \<in> node_id ` set (specNodes ns)"
    by (rule operator_node_in_specNodes)
  ultimately show ?thesis
    by (simp add: Some buildGraph_closed_form e mkEdge_def)
qed

theorem edges_have_no_dangling_endpoints_witness:
  "\<lparr>edge_id = ''e-id-2-id-4'', source = ''id-2'', target = ''id-4'', animated = True\<rparr>
     \<in> set (snd (buildGraph (Some [convNode]))) \<and>
   ''id-2'' \<in> node_id ` set (fst (buildGraph (Some [convNode]))) \<and>
   ''id-4'' \<in> node_id ` set (fst (buildGraph (Some [convNode])))"
proof -
  have h: "\<lparr>edge_id = ''e-id-2-id-4'', source = ''id-2'', target = ''id-4'', animated = True\<rparr>
     \<in> set (snd (buildGraph (Some [convNode])))"
    by (simp add: scenario1_build)
  from edges_have_no_dangling_endpoints [OF h] h show ?thesis by simp
qed

text \<open>
  Claim C5, as amended. In the ModelViewer build the operator at position \<open>i\<close> is the
  node after the input nodes at offset \<open>i\<close>; its id is the one assigned to its
  canonical name (\<open>output[0]\<close> if non-empty, else \<open>name\<close> if non-empty, else
  \<open>node-<i>\<close>) and its label falls back through \<open>opType\<close>, \<open>op_type\<close>, \<open>type\<close>
  and \<open>Node <i>\<close>; the build has no failing branch. \<open>layoutGraph\<close> takes
  \<open>node.output[0]\<close> as the id and \<open>node.opType\<close> as node type and first label line
  as they are, with no fallback.
\<close>

theorem operator_naming_fallbacks:
  assumes "i < length ns"
  shows "fst (buildGraph (Some ns)) ! (length (addNew [] (allInputs ns)) + i) =
           \<lparr>node_id = tensorId ns (canonicalName (ns ! i) i), node_type = ''default'',
            position_x = 300 + (i mod 4) * 200, position_y = 100 + (i div 4) * 150,
            data_label = displayLabel (ns ! i) i\<rparr> \<and>
         nameToId (buildState ns) (canonicalName (ns ! i) i)
           = Some (tensorId ns (canonicalName (ns ! i) i)) \<and>
         (\<forall>d children es.
            layoutGraph d = Inr (children, es) \<and> graph_nodes d = ns \<longrightarrow>
              elk_id (children ! (length (graph_inputs d) + i)) = outputFirst (ns ! i) \<and>
              nodeType (children ! (length (graph_inputs d) + i)) = opType (ns ! i) \<and>
              hd (labels (children ! (length (graph_inputs d) + i))) = opType (ns ! i))"
proof (intro conjI allI impI)
  show "fst (buildGraph (Some ns)) ! (length (addNew [] (allInputs ns)) + i) =
           \<lparr>node_id = tensorId ns (canonicalName (ns ! i) i), node_type = ''default'',
            position_x = 300 + (i mod 4) * 200, position_y = 100 + (i div 4) * 150,
            data_label = displayLabel (ns ! i) i\<rparr>"
    using specNodes_operator_nth [OF assms]
    by (simp add: buildGraph_closed_form mkOperatorNode_def outputName_canonical
        operatorLabel_display)
  show "nameToId (buildState ns) (canonicalName (ns ! i) i)
           = Some (tensorId ns (canonicalName (ns ! i) i))"
    using nameToId_buildState [of "outputName (ns ! i) i" ns] outputName_in_outputNames [OF assms]
    by (simp add: outputName_canonical)
next
  fix d children es
  assume a: "layoutGraph d = Inr (children, es) \<and> graph_nodes d = ns"
  then have c: "children = map inputChild (graph_inputs d) @ map operatorChild ns @
           map outputChild (graph_outputs d)"
    using layoutGraph_Inr(1) [of d children es] by simp
  have n: "children ! (length (graph_inputs d) + i) = operatorChild (ns ! i)"
    using assms by (simp add: c nth_append)
  show "elk_id (children ! (length (graph_inputs d) + i)) = outputFirst (ns ! i)"
    by (simp add: n operatorChild_def)
  show "nodeType (children ! (length (graph_inputs d) + i)) = opType (ns ! i)"
    by (simp add: n operatorChild_def)
  show "hd (labels (children ! (length (graph_inputs d) + i))) = opType (ns ! i)"
    by (simp add: n operatorChild_def operatorLines_def)
qed

theorem operator_naming_fallbacks_witness:
  "(1 :: nat) < length [fcNode, bareNode] \<and>
   canonicalName fcNode 0 = ''fc'' \<and> displayLabel fcNode 0 = ''Gemm'' \<and>
   canonicalName bareNode 1 = ''node-1'' \<and> displayLabel bareNode 1 = ''Node 1'' \<and>
   fst (buildGraph (Some [fcNode, bareNode])) ! 2 =
     \<lparr>node_id = tensorId [fcNode, bareNode] ''node-1'', node_type = ''default'',
      position_x = 500, position_y = 100, data_label = ''Node 1''\<rparr> \<and>
   nameToId (buildState [fcNode, bareNode]) ''node-1'' = Some (tensorId [fcNode, bareNode] ''node-1'') \<and>
   layoutGraph \<lparr>graph_inputs = [], graph_outputs = [], graph_nodes = [fcNode, bareNode]\<rparr> =
     Inr ([operatorChild fcNode, operatorChild bareNode], consumerEdges fcNode @ consumerEdges bareNode) \<and>
   elk_id ([operatorChild fcNode, operatorChild bareNode] ! 1) = None"
proof -
  have h: "(1 :: nat) < length [fcNode, bareNode]" by simp
  have c: "canonicalName fcNode 0 = ''fc''" "displayLabel fcNode 0 = ''Gemm''"
    "canonicalName bareNode 1 = ''node-1''" "displayLabel bareNode 1 = ''Node 1''"
    by (simp_all add: canonicalName_def displayLabel_def fcNode_def bareNode_def truthy_def
        outputFirst_def numToString_digit digitChar_numeral)
  have l: "length (addNew [] (allInputs [fcNode, bareNode])) = 1"
    by (simp add: allInputs_def inputsOf_def fcNode_def bareNode_def)
  have n: "[fcNode, bareNode] ! 1 = bareNode" by simp
  have o: "outputFirst bareNode = None" by (simp add: outputFirst_def bareNode_def)
  note t = operator_naming_fallbacks [OF h, unfolded l n c]
  from t have 1: "fst (buildGraph (Some [fcNode, bareNode])) ! 2 =
     \<lparr>node_id = tensorId [fcNode, bareNode] ''node-1'', node_type = ''default'',
      position_x = 500, position_y = 100, data_label = ''Node 1''\<rparr>"
    and 2: "nameToId (buildState [fcNode, bareNode]) ''node-1'' = Some (tensorId [fcNode, bareNode] ''node-1'')"
    by (simp_all add: numeral_2_eq_2)
  from t have "\<And>d children es.
      layoutGraph d = Inr (children, es) \<and> graph_nodes d = [fcNode, bareNode] \<Longrightarrow>
      elk_id (children ! (length (graph_inputs d) + 1)) = outputFirst bareNode"
    by blast
  from this [of "\<lparr>graph_inputs = [], graph_outputs = [], graph_nodes = [fcNode, bareNode]\<rparr>"
      "[operatorChild fcNode, operatorChild bareNode]"
      "consumerEdges fcNode @ consumerEdges bareNode"] fc_bare_layout
  have 3: "elk_id ([operatorChild fcNode, operatorChild bareNode] ! 1) = None"
    by (simp add: o)
  from h c 1 2 3 fc_bare_layout show ?thesis by blast
qed

text \<open>
  The claim as stated fails in \<open>layoutGraph\<close>: an operator named \<open>fc\<close> of kind
  \<open>Gemm\<close> (in \<open>op_type\<close>) with an empty output list gets an undefined id and an
  undefined label.
\<close>

theorem layout_naming_has_no_fallback_counterexample:
  "layoutGraph \<lparr>graph_inputs = [], graph_outputs = [], graph_nodes = [fcNode]\<rparr> =
     Inr ([\<lparr>elk_id = None, width = 200, height = 120, labels = [None], nodeType = None,
            originalNode = Some fcNode\<rparr>],
          [\<lparr>elk_edge_id = ''x->undefined'', sources = [Some ''x''], targets = [None]\<rparr>]) \<and>
   output_prop fcNode = Some [] \<and> name fcNode = Some ''fc'' \<and> op_type fcNode = Some ''Gemm''"
  using fc_layout by (simp add: fcNode_def)

text \<open>
  Claim C8. The callback starts from a fresh builder on every run, so its result is a
  function of the model alone: the input nodes in order of first consumption followed
  by the operator nodes in node order, with the ids, coordinates and labels written
  out in \<open>specNodes\<close>, and the edges in node order then input-list order, as in
  \<open>specEdges\<close>. The children and edges that \<open>layoutGraph\<close> hands to the layout
  library are likewise the inputs, operators and outputs in their order, and the
  consumer edges in node order then input-list order.
\<close>

theorem build_is_function_of_model:
  "buildGraph (Some ns) = (specNodes ns, specEdges ns) \<and>
   map source (snd (buildGraph (Some ns))) = map (tensorId ns) (allInputs ns) \<and>
   map target (snd (buildGraph (Some ns))) =
     concat (map (\<lambda>(i, n). replicate (length (inputsOf n)) (tensorId ns (outputName n i)))
       (enumerate 0 ns)) \<and>
   (\<forall>d children es.
      layoutGraph d = Inr (children, es) \<longrightarrow>
        children = map inputChild (graph_inputs d) @ map operatorChild (graph_nodes d) @
          map outputChild (graph_outputs d) \<and>
        es = concat (map consumerEdges (graph_nodes d)) @
          concat (map (producerEdges (graph_nodes d)) (graph_outputs d)) \<and>
        map sources (concat (map consumerEdges (graph_nodes d)))
          = map (\<lambda>t. [Some t]) (allInputs (graph_nodes d)))"
  using layoutGraph_Inr
  by (simp add: buildGraph_closed_form map_source_specEdges map_target_specEdges
      sources_consumerEdges)

theorem build_is_function_of_model_witness:
  "layoutGraph scenarioData =
     Inr ([inputChild \<lparr>io_name = Some ''x'', io_type = ''unknown''\<rparr>, operatorChild convNode,
           outputChild \<lparr>io_name = Some ''y'', io_type = ''unknown''\<rparr>],
          [\<lparr>elk_edge_id = ''x->y'', sources = [Some ''x''], targets = [Some ''y'']\<rparr>,
           \<lparr>elk_edge_id = ''w->y'', sources = [Some ''w''], targets = [Some ''y'']\<rparr>,
           \<lparr>elk_edge_id = ''b->y'', sources = [Some ''b''], targets = [Some ''y'']\<rparr>,
           \<lparr>elk_edge_id = ''y->y'', sources = [Some ''y''], targets = [Some ''y'']\<rparr>]) \<and>
   map sources (concat (map consumerEdges (graph_nodes scenarioData)))
     = [[Some ''x''], [Some ''w''], [Some ''b'']] \<and>
   map source (snd (buildGraph (Some [convNode]))) = map (tensorId [convNode]) [''x'', ''w'', ''b'']"
proof -
  note t = build_is_function_of_model [of "[convNode]"]
  have a: "allInputs (graph_nodes scenarioData) = [''x'', ''w'', ''b'']"
    "allInputs [convNode] = [''x'', ''w'', ''b'']"
    by (simp_all add: scenarioData_def allInputs_def inputsOf_def convNode_def)
  from t have "\<And>d children es. layoutGraph d = Inr (children, es) \<Longrightarrow>
      map sources (concat (map consumerEdges (graph_nodes d)))
          = map (\<lambda>t. [Some t]) (allInputs (graph_nodes d))"
    by blast
  from this [OF scenario_layout]
  have "map sources (concat (map consumerEdges (graph_nodes scenarioData)))
      = map (\<lambda>t. [Some t]) (allInputs (graph_nodes scenarioData))" .
  moreover from t have "map source (snd (buildGraph (Some [convNode])))
      = map (tensorId [convNode]) (allInputs [convNode])" by blast
  ultimately show ?thesis using scenario_layout by (simp add: a)
qed

text \<open>
  Claim C10, as amended. When the canonical name of an operator (its first output if
  non-empty, else its name, else \<open>node-<i>\<close>) is consumed by some operator, the built
  node list holds an input node and that operator's node with the same id, so the node
  ids are not pairwise distinct.
\<close>

theorem consumed_canonical_name_shares_id:
  assumes "i < length ns" and "j < length ns"
    and "outputName (ns ! i) i \<in> set (inputsOf (ns ! j))"
  shows "(\<exists>k < length (addNew [] (allInputs ns)).
            node_type (fst (buildGraph (Some ns)) ! k) = ''input'' \<and>
            node_type (fst (buildGraph (Some ns)) ! (length (addNew [] (allInputs ns)) + i))
              = ''default'' \<and>
            node_id (fst (buildGraph (Some ns)) ! k)
              = node_id (fst (buildGraph (Some ns)) ! (length (addNew [] (allInputs ns)) + i))) \<and>
         \<not> distinct (map node_id (fst (buildGraph (Some ns))))"
proof -
  let ?L = "addNew [] (allInputs ns)"
  let ?t = "outputName (ns ! i) i"
  let ?N = "specNodes ns"
  from assms(2,3) have "?t \<in> set (allInputs ns)"
    by (auto simp: allInputs_def)
  then have "?t \<in> set ?L" by (simp add: set_addNew)
  then obtain k where k: "k < length ?L" "?L ! k = ?t" by (auto simp: in_set_conv_nth)
  have a: "?N ! k = mkInputNode (tensorId ns ?t) k ?t"
    using specNodes_input_nth [OF k(1)] k(2) by simp
  have b: "?N ! (length ?L + i) = mkOperatorNode (tensorId ns ?t) i (ns ! i)"
    using specNodes_operator_nth [OF assms(1)] by simp
  have same: "node_id (?N ! k) = node_id (?N ! (length ?L + i))"
    by (simp add: a b mkInputNode_def mkOperatorNode_def)
  have "\<not> distinct (map node_id ?N)"
  proof
    assume d: "distinct (map node_id ?N)"
    have "k < length (map node_id ?N)" "length ?L + i < length (map node_id ?N)"
      using k(1) assms(1) by (simp_all add: length_inputs_specNodes)
    moreover have "map node_id ?N ! k = map node_id ?N ! (length ?L + i)"
      using same k(1) assms(1) by (simp add: length_inputs_specNodes)
    ultimately have "k = length ?L + i"
      using d nth_eq_iff_index_eq [of "map node_id ?N" k "length ?L + i"] by blast
    with k(1) show False by simp
  qed
  moreover have "node_type (?N ! k) = ''input''" by (simp add: a mkInputNode_def)
  moreover have "node_type (?N ! (length ?L + i)) = ''default''"
    by (simp add: b mkOperatorNode_def)
  ultimately show ?thesis
    using k(1) same by (auto simp: buildGraph_closed_form)
qed

theorem consumed_canonical_name_shares_id_witness:
  "(0 :: nat) < length [convNode, reluNode] \<and> (1 :: nat) < length [convNode, reluNode] \<and>
   outputName ([convNode, reluNode] ! 0) 0 \<in> set (inputsOf ([convNode, reluNode] ! 1)) \<and>
   \<not> distinct (map node_id (fst (buildGraph (Some [convNode, reluNode]))))"
proof -
  have h: "(0 :: nat) < length [convNode, reluNode]" "(1 :: nat) < length [convNode, reluNode]"
    "outputName ([convNode, reluNode] ! 0) 0 \<in> set (inputsOf ([convNode, reluNode] ! 1))"
    by (simp_all add: outputName_def outputFirst_def orElse_def orOpt_def truthy_def
        inputsOf_def convNode_def reluNode_def)
  from consumed_canonical_name_shares_id [OF h] h show ?thesis by blast
qed

text \<open>
  The claim as stated fails when the consumed tensor is produced as a later output:
  \<open>t\<close> is the second output of one operator and an input of another, and the four
  node ids are pairwise distinct.
\<close>

theorem second_output_consumed_counterexample:
  "input useNode = Some [''t''] \<and> output_prop splitNode = Some [''u'', ''t''] \<and>
   map node_id (fst (buildGraph (Some [splitNode, useNode])))
     = [''id-1'', ''id-2'', ''id-3'', ''id-4''] \<and>
   distinct (map node_id (fst (buildGraph (Some [splitNode, useNode]))))"
  by (simp add: split_build) (simp add: splitNode_def useNode_def)

section \<open>Node labels\<close>

text \<open>
  Claim C9, as amended. In the graph of \<open>layoutGraph\<close> every operator node's first
  label line is its \<open>opType\<close>, and a \<open>Conv\<close> node has six more lines: \<open>Weight\<close> and
  \<open>Bias\<close> with the first input whose name contains \<open>weight\<close> or \<open>bias\<close> (\<open>W\<close> or
  \<open>B\<close> when there is none), then \<open>Dilations\<close>, \<open>Kernel\<close>, \<open>Padding\<close> and \<open>Strides\<close>
  with the attribute's integers joined by the multiplication sign, or an en dash when
  the attribute is absent or has no integers; its input and output nodes carry the
  tensor name as it is. In the ModelViewer graph every input node has one label, the
  tensor name cut to its first 20 characters followed by \<open>...\<close> when it is longer than
  20 characters, and the name itself otherwise.
\<close>

theorem node_labels:
  "(\<forall>children es n.
      layoutGraph d = Inr (children, es) \<and> n \<in> set (graph_nodes d) \<longrightarrow>
        (\<exists>c \<in> set children.
           originalNode c = Some n \<and> hd (labels c) = opType n \<and>
           labels c =
             (if opType n = Some ''Conv''
              then [Some ''Conv'',
                    Some (''Weight: '' @ findInput n ''weight'' ''W''),
                    Some (''Bias: '' @ findInput n ''bias'' ''B''),
                    Some (''Dilations: '' @ attrText n ''dilations''),
                    Some (''Kernel: '' @ attrText n ''kernel_shape''),
                    Some (''Padding: '' @ attrText n ''pads''),
                    Some (''Strides: '' @ attrText n ''strides'')]
              else [opType n]))) \<and>
   (\<forall>n key. (\<forall>a \<in> set (orEmpty (attribute n)). attr_name a \<noteq> Some key) \<longrightarrow>
      attrText n key = enDash) \<and>
   (\<forall>children es io.
      layoutGraph d = Inr (children, es) \<and> io \<in> set (graph_inputs d) \<union> set (graph_outputs d) \<longrightarrow>
        (\<exists>c \<in> set children.
           originalNode c = None \<and> elk_id c = io_name io \<and> labels c = [io_name io])) \<and>
   (\<forall>k < length (addNew [] (allInputs ns)).
      node_type (fst (buildGraph (Some ns)) ! k) = ''input'' \<and>
      data_label (fst (buildGraph (Some ns)) ! k) =
        (let t = addNew [] (allInputs ns) ! k
         in if 20 < length t then take 20 t @ ''...'' else t))"
proof (intro conjI allI impI)
  fix children es n
  assume a: "layoutGraph d = Inr (children, es) \<and> n \<in> set (graph_nodes d)"
  then have "operatorChild n \<in> set children"
    using in_layout_children(1) [of d children es n] by blast
  moreover have "originalNode (operatorChild n) = Some n"
    "labels (operatorChild n) = operatorLines n"
    by (simp_all add: operatorChild_def)
  moreover have "hd (operatorLines n) = opType n" by (simp add: operatorLines_def)
  ultimately show "\<exists>c \<in> set children.
           originalNode c = Some n \<and> hd (labels c) = opType n \<and>
           labels c =
             (if opType n = Some ''Conv''
              then [Some ''Conv'',
                    Some (''Weight: '' @ findInput n ''weight'' ''W''),
                    Some (''Bias: '' @ findInput n ''bias'' ''B''),
                    Some (''Dilations: '' @ attrText n ''dilations''),
                    Some (''Kernel: '' @ attrText n ''kernel_shape''),
                    Some (''Padding: '' @ attrText n ''pads''),
                    Some (''Strides: '' @ attrText n ''strides'')]
              else [opType n])"
    using operatorLines_spec [of n] by metis
next
  fix n :: rawNode and key
  assume "\<forall>a \<in> set (orEmpty (attribute n)). attr_name a \<noteq> Some key"
  then show "attrText n key = enDash" by (rule attrText_absent)
next
  fix children es io
  assume a: "layoutGraph d = Inr (children, es) \<and> io \<in> set (graph_inputs d) \<union> set (graph_outputs d)"
  then have "inputChild io \<in> set children \<or> outputChild io \<in> set children"
    using in_layout_children(2,3) [of d children es io] by auto
  then show "\<exists>c \<in> set children.
      originalNode c = None \<and> elk_id c = io_name io \<and> labels c = [io_name io]"
  proof
    assume "inputChild io \<in> set children"
    then show ?thesis by (rule bexI [rotated]) (simp add: inputChild_def)
  next
    assume "outputChild io \<in> set children"
    then show ?thesis by (rule bexI [rotated]) (simp add: outputChild_def)
  qed
next
  fix k
  assume "k < length (addNew [] (allInputs ns))"
  then show "node_type (fst (buildGraph (Some ns)) ! k) = ''input''"
    and "data_label (fst (buildGraph (Some ns)) ! k) =
        (let t = addNew [] (allInputs ns) ! k
         in if 20 < length t then take 20 t @ ''...'' else t)"
    by (rule input_label_truncated)+
qed

theorem node_labels_witness:
  "layoutGraph convData =
     Inr ([inputChild \<lparr>io_name = Some ''data'', io_type = ''unknown''\<rparr>,
           operatorChild convWithAttrs], consumerEdges convWithAttrs) \<and>
   convWithAttrs \<in> set (graph_nodes convData) \<and>
   (\<exists>c \<in> set [inputChild \<lparr>io_name = Some ''data'', io_type = ''unknown''\<rparr>,
           operatorChild convWithAttrs].
      originalNode c = Some convWithAttrs \<and>
      labels c = [Some ''Conv'', Some ''Weight: conv1.weight'', Some ''Bias: conv1.bias'',
                  Some (''Dilations: '' @ enDash), Some (''Kernel: 3'' @ timesSign @ ''3''),
                  Some (''Padding: '' @ enDash), Some (''Strides: 1'' @ timesSign @ ''1'')]) \<and>
   find (\<lambda>a. attr_name a = Some ''pads'') (orEmpty (attribute convWithAttrs)) = None \<and>
   attrText convWithAttrs ''pads'' = enDash \<and>
   \<lparr>io_name = Some ''data'', io_type = ''unknown''\<rparr>
     \<in> set (graph_inputs convData) \<union> set (graph_outputs convData) \<and>
   (\<exists>c \<in> set [inputChild \<lparr>io_name = Some ''data'', io_type = ''unknown''\<rparr>,
           operatorChild convWithAttrs].
      originalNode c = None \<and> elk_id c = Some ''data'' \<and> labels c = [Some ''data'']) \<and>
   (0 :: nat) < length (addNew [] (allInputs [longInputNode])) \<and>
   data_label (fst (buildGraph (Some [longInputNode])) ! 0) = ''input_tensor_with_a_...''"
proof -
  note t = node_labels [of convData "[longInputNode]"]
  have m: "convWithAttrs \<in> set (graph_nodes convData)" by (simp add: convData_def)
  have c: "opType convWithAttrs = Some ''Conv''" by (simp add: convWithAttrs_def)
  from t have "\<And>children es n.
      layoutGraph convData = Inr (children, es) \<and> n \<in> set (graph_nodes convData) \<Longrightarrow>
        (\<exists>c \<in> set children. originalNode c = Some n \<and>
           labels c =
             (if opType n = Some ''Conv''
              then [Some ''Conv'',
                    Some (''Weight: '' @ findInput n ''weight'' ''W''),
                    Some (''Bias: '' @ findInput n ''bias'' ''B''),
                    Some (''Dilations: '' @ attrText n ''dilations''),
                    Some (''Kernel: '' @ attrText n ''kernel_shape''),
                    Some (''Padding: '' @ attrText n ''pads''),
                    Some (''Strides: '' @ attrText n ''strides'')]
              else [opType n]))"
    by blast
  from this [OF conjI [OF conv_layout m]]
  have 1: "\<exists>c \<in> set [inputChild \<lparr>io_name = Some ''data'', io_type = ''unknown''\<rparr>,
           operatorChild convWithAttrs].
      originalNode c = Some convWithAttrs \<and>
      labels c = [Some ''Conv'', Some ''Weight: conv1.weight'', Some ''Bias: conv1.bias'',
                  Some (''Dilations: '' @ enDash), Some (''Kernel: 3'' @ timesSign @ ''3''),
                  Some (''Padding: '' @ enDash), Some (''Strides: 1'' @ timesSign @ ''1'')]"
    unfolding c conv_lines by simp
  have l: "addNew [] (allInputs [longInputNode]) = [''input_tensor_with_a_long_name'']"
    by (simp add: allInputs_def inputsOf_def longInputNode_def)
  from t have "\<And>k. k < length (addNew [] (allInputs [longInputNode])) \<Longrightarrow>
      data_label (fst (buildGraph (Some [longInputNode])) ! k) =
        (let t = addNew [] (allInputs [longInputNode]) ! k
         in if 20 < length t then take 20 t @ ''...'' else t)"
    by blast
  from this [of 0]
  have 2: "data_label (fst (buildGraph (Some [longInputNode])) ! 0) = ''input_tensor_with_a_...''"
    by (simp add: l)
  have p: "\<forall>a \<in> set (orEmpty (attribute convWithAttrs)). attr_name a \<noteq> Some ''pads''"
    by (simp add: convWithAttrs_def orEmpty_def)
  from t have "\<And>(n :: rawNode) key.
      (\<forall>a \<in> set (orEmpty (attribute n)). attr_name a \<noteq> Some key) \<Longrightarrow> attrText n key = enDash"
    by blast
  from this [OF p] have 3: "attrText convWithAttrs ''pads'' = enDash" .
  have i: "\<lparr>io_name = Some ''data'', io_type = ''unknown''\<rparr>
     \<in> set (graph_inputs convData) \<union> set (graph_outputs convData)"
    by (simp add: convData_def)
  from t have "\<And>children es io.
      layoutGraph convData = Inr (children, es) \<and>
        io \<in> set (graph_inputs convData) \<union> set (graph_outputs convData) \<Longrightarrow>
        (\<exists>c \<in> set children.
           originalNode c = None \<and> elk_id c = io_name io \<and> labels c = [io_name io])"
    by blast
  from this [OF conjI [OF conv_layout i]]
  have 4: "\<exists>c \<in> set [inputChild \<lparr>io_name = Some ''data'', io_type = ''unknown''\<rparr>,
           operatorChild convWithAttrs].
      originalNode c = None \<and> elk_id c = Some ''data'' \<and> labels c = [Some ''data'']"
    by simp
  have 5: "(0 :: nat) < length (addNew [] (allInputs [longInputNode]))" by (simp add: l)
  have f: "find (\<lambda>a. attr_name a = Some ''pads'') (orEmpty (attribute convWithAttrs)) = None"
    by (simp add: convWithAttrs_def orEmpty_def)
  from conv_layout m 1 2 3 4 5 f i show ?thesis by blast
qed

text \<open>
  The claim as stated fails in each graph: \<open>layoutGraph\<close> leaves a declared input name
  of 29 characters as it is, and the ModelViewer node of a \<open>Conv\<close> operator has the
  single label \<open>Conv\<close>.
\<close>

theorem layout_labels_not_truncated_counterexample:
  "layoutGraph longNameData =
     Inr ([\<lparr>elk_id = Some ''input_tensor_with_a_long_name'', width = 140, height = 80,
            labels = [Some ''input_tensor_with_a_long_name''], nodeType = Some ''Input'',
            originalNode = None\<rparr>], []) \<and>
   length ''input_tensor_with_a_long_name'' = 29 \<and>
   opType convNode = Some ''Conv'' \<and>
   data_label (fst (buildGraph (Some [convNode])) ! 3) = ''Conv''"
  by (simp add: scenario1_build) (simp add: layout_eval longNameData_def convNode_def)

end
